theory Spec2Isabelle
  imports Main "HOL-Library.Word" "HOL-Library.Sublist"
begin

unbundle bit_operations_syntax

section \<open>C strings and the C library routines used by debugger/stabs.c\<close>

text \<open>
  A C string is the list of its characters up to, not including, the terminating NUL.
  A \<^verbatim>\<open>char *\<close> that walks through a string is the suffix that starts at the pointer:
  reading \<^verbatim>\<open>*p\<close> at the end of the list reads the NUL, and stepping a pointer over the
  NUL and using it afterwards leaves the string. Everything the C code does outside
  the objects it owns is a \<open>fault\<close> of the model.
\<close>

datatype fault =
    ReadPastEnd        \<comment> \<open>a pointer was moved over the terminating NUL and then used\<close>
  | ReadBeforeStart    \<comment> \<open>a backward scan left the start of the buffer\<close>
  | BadIndex           \<comment> \<open>an array was indexed outside its bounds\<close>
  | NullType           \<comment> \<open>a NULL \<^verbatim>\<open>struct datatype *\<close> was handed to a catalog routine\<close>
  | AssertFailed       \<comment> \<open>an \<^verbatim>\<open>assert\<close> of the source failed\<close>
  | BufferOverflow     \<comment> \<open>a fixed-size character buffer was written past its end\<close>
  | OutOfBounds        \<comment> \<open>a read outside the mapped file\<close>
  | StalePointer       \<comment> \<open>a pointer into a block was used after \<^verbatim>\<open>DBG_realloc\<close> of the block\<close>

definition NUL :: char where
  "NUL = CHR 0x00"

definition deref :: "string \<Rightarrow> char" where
  \<comment> \<open>\<^verbatim>\<open>*p\<close>\<close>
  "deref p = (case p of [] \<Rightarrow> NUL | c # _ \<Rightarrow> c)"

definition advance :: "string \<Rightarrow> fault + string" where
  \<comment> \<open>\<^verbatim>\<open>p++\<close>, where the pointer is used afterwards\<close>
  "advance p = (case p of [] \<Rightarrow> Inl ReadPastEnd | _ # r \<Rightarrow> Inr r)"

definition is_digit :: "char \<Rightarrow> bool" where
  "is_digit c = (48 \<le> (of_char c :: nat) \<and> (of_char c :: nat) \<le> 57)"

definition digit_val :: "char \<Rightarrow> int" where
  "digit_val c = int (of_char c) - 48"

definition is_space :: "char \<Rightarrow> bool" where
  \<comment> \<open>\<^verbatim>\<open>isspace\<close> in the C locale: space, \<^verbatim>\<open>\t \n \v \f \r\<close>\<close>
  "is_space c = ((of_char c :: nat) = 32 \<or> (9 \<le> (of_char c :: nat) \<and> (of_char c :: nat) \<le> 13))"

definition LONG_MAX :: int where
  \<comment> \<open>\<^verbatim>\<open>long\<close> and \<^verbatim>\<open>int\<close> have 32 bits on the i386 target of the debugger\<close>
  "LONG_MAX = 2147483647"

definition LONG_MIN :: int where
  "LONG_MIN = - 2147483648"

fun strtol_digits :: "int \<Rightarrow> string \<Rightarrow> int \<times> string" where
  "strtol_digits acc [] = (acc, [])"
| "strtol_digits acc (c # cs) =
     (if is_digit c then strtol_digits (acc * 10 + digit_val c) cs else (acc, c # cs))"

definition strtol :: "string \<Rightarrow> int \<times> string" where
  \<comment> \<open>\<^verbatim>\<open>strtol(nptr, &endptr, 10)\<close>: white space, an optional sign, decimal digits;
      the value saturates at \<^verbatim>\<open>LONG_MIN\<close> and \<^verbatim>\<open>LONG_MAX\<close>; with no digits the value is 0
      and \<^verbatim>\<open>endptr = nptr\<close>\<close>
  "strtol nptr =
     (let s = dropWhile is_space nptr;
          neg = (deref s = CHR ''-'');
          t = (if deref s = CHR ''-'' \<or> deref s = CHR ''+'' then tl s else s)
      in if is_digit (deref t)
         then (case strtol_digits 0 t of
                 (v, endptr) \<Rightarrow> ((if neg then max LONG_MIN (- v) else min LONG_MAX v), endptr))
         else (0, nptr))"

definition strchr :: "string \<Rightarrow> char \<Rightarrow> (string \<times> string) option" where
  \<comment> \<open>\<^verbatim>\<open>strchr(s, c)\<close> for \<^verbatim>\<open>c\<close> other than NUL: the text before the first
      occurrence and the text from the occurrence on\<close>
  "strchr s c =
     (if c \<in> set s then Some (takeWhile (\<lambda>x. x \<noteq> c) s, dropWhile (\<lambda>x. x \<noteq> c) s) else None)"

definition strrchr :: "string \<Rightarrow> char \<Rightarrow> (string \<times> string) option" where
  \<comment> \<open>\<^verbatim>\<open>strrchr(s, c)\<close>: the text before the last occurrence and the text after it\<close>
  "strrchr s c =
     (if c \<in> set s
      then Some (rev (tl (dropWhile (\<lambda>x. x \<noteq> c) (rev s))), rev (takeWhile (\<lambda>x. x \<noteq> c) (rev s)))
      else None)"

subsection \<open>stab\_hash and stab\_strcpy\<close>

fun stab_hash_loop :: "32 word \<Rightarrow> string \<Rightarrow> 32 word" where
  "stab_hash_loop hash [] = hash"
| "stab_hash_loop hash (c # p) =
     (let hash1 = push_bit 4 hash + scast (of_char c :: 8 word);
          tmp = hash1 AND 0xf0000000;
          hash2 = (if tmp \<noteq> 0 then hash1 XOR drop_bit 24 tmp else hash1)
      in stab_hash_loop (hash2 AND NOT tmp) p)"

definition NR_STAB_HASH :: nat where
  "NR_STAB_HASH = 521"

definition stab_hash :: "string \<Rightarrow> nat" where
  \<comment> \<open>\<^verbatim>\<open>char\<close> is signed on the target, so \<^verbatim>\<open>*p++\<close> is sign-extended\<close>
  "stab_hash name = unat (stab_hash_loop 0 name) mod NR_STAB_HASH"

definition stab_strcpy :: "nat \<Rightarrow> string \<Rightarrow> fault + string" where
  \<comment> \<open>copies up to the first \<^verbatim>\<open>':'\<close>; \<^verbatim>\<open>assert(sz > 0)\<close> fails when the name does not
      leave room for the NUL\<close>
  "stab_strcpy sz source =
     (let n = takeWhile (\<lambda>c. c \<noteq> CHR '':'') source
      in if length n < sz then Inr n else Inl AssertFailed)"

section \<open>The data-type catalog\<close>

text \<open>
  The catalog (debugger/types.c) is not among the sources of stabs.c; its routines are
  modelled from their interface in the specification. A \<^verbatim>\<open>struct datatype *\<close> is an
  index into the list of nodes allocated so far, and NULL is \<open>None\<close>.
\<close>

datatype debug_type = DT_BASIC | DT_POINTER | DT_ARRAY | DT_STRUCT | DT_ENUM | DT_FUNC

type_synonym dtref = nat

record datatype_node =
  dt_type :: debug_type
  dt_name :: "string option"
  pointsto :: "dtref option"
  arr_min :: int
  arr_max :: int
  arr_elt :: "dtref option"
  struct_size :: "int option"
  elements :: "(string \<times> dtref option \<times> int \<times> int) list"

datatype log_msg =
    UnknownType char
  | UnknownCondition "dtref option" "dtref option"
  | FieldFailure string
  | UnknownStabType nat

record known_typedef =
  ktd_name :: string
  ktd_types :: "dtref option list"

record include_def =
  inc_name :: string
  inc_value :: "32 word"
  inc_vector :: "dtref option list"

record stabs_state =
  ktd_head :: "nat \<Rightarrow> known_typedef list"
  include_defs :: "include_def list"
  cu_include_stack :: "nat \<Rightarrow> int"
  cu_include_stk_idx :: nat
  cu_vector :: "dtref option list"
  type_heap :: "datatype_node list"
  dbg_log :: "log_msg list"

definition DEBUG_Printf :: "log_msg \<Rightarrow> stabs_state \<Rightarrow> stabs_state" where
  "DEBUG_Printf m st = st\<lparr>dbg_log := dbg_log st @ [m]\<rparr>"

definition DEBUG_NewDataType :: "debug_type \<Rightarrow> string option \<Rightarrow> stabs_state \<Rightarrow> dtref \<times> stabs_state" where
  \<comment> \<open>Modelled from the spec: types.c is missing; \<^verbatim>\<open>new_*_type(name?) -> type handle\<close>
      allocates a node of the given kind with no payload yet\<close>
  "DEBUG_NewDataType xtype typename st =
     (length (type_heap st),
      st\<lparr>type_heap := type_heap st @
        [\<lparr>dt_type = xtype, dt_name = typename, pointsto = None, arr_min = 0, arr_max = 0,
          arr_elt = None, struct_size = None, elements = []\<rparr>]\<rparr>)"

definition DEBUG_GetType :: "dtref option \<Rightarrow> stabs_state \<Rightarrow> fault + debug_type" where
  \<comment> \<open>Modelled from the spec: types.c is missing; the kind of a node\<close>
  "DEBUG_GetType dt st =
     (case dt of None \<Rightarrow> Inl NullType
      | Some h \<Rightarrow> if h < length (type_heap st) then Inr (dt_type (type_heap st ! h)) else Inl BadIndex)"

definition update_node :: "dtref option \<Rightarrow> (datatype_node \<Rightarrow> datatype_node) \<Rightarrow> stabs_state \<Rightarrow> fault + stabs_state" where
  "update_node dt f st =
     (case dt of None \<Rightarrow> Inl NullType
      | Some h \<Rightarrow> if h < length (type_heap st)
                  then Inr (st\<lparr>type_heap := (type_heap st)[h := f (type_heap st ! h)]\<rparr>)
                  else Inl BadIndex)"

definition DEBUG_SetPointerType :: "dtref option \<Rightarrow> dtref option \<Rightarrow> stabs_state \<Rightarrow> fault + stabs_state" where
  \<comment> \<open>Modelled from the spec: types.c is missing; \<^verbatim>\<open>set_pointer_target(handle, target)\<close>\<close>
  "DEBUG_SetPointerType dt dt2 st = update_node dt (\<lambda>n. n\<lparr>pointsto := dt2\<rparr>) st"

definition DEBUG_SetArrayParams :: "dtref option \<Rightarrow> int \<Rightarrow> int \<Rightarrow> dtref option \<Rightarrow> stabs_state \<Rightarrow> fault + stabs_state" where
  \<comment> \<open>Modelled from the spec: types.c is missing; \<^verbatim>\<open>set_array_bounds(handle, min, max, element)\<close>\<close>
  "DEBUG_SetArrayParams dt mn mx dt2 st =
     update_node dt (\<lambda>n. n\<lparr>arr_min := mn, arr_max := mx, arr_elt := dt2\<rparr>) st"

definition DEBUG_SetStructSize :: "dtref option \<Rightarrow> int \<Rightarrow> stabs_state \<Rightarrow> fault + (bool \<times> stabs_state)" where
  \<comment> \<open>Modelled from the spec: types.c is missing;
      \<^verbatim>\<open>set_struct_size(handle, bytes) -> bool (false if already sized)\<close>\<close>
  "DEBUG_SetStructSize dt sz st =
     (case dt of None \<Rightarrow> Inl NullType
      | Some h \<Rightarrow>
          if \<not> h < length (type_heap st) then Inl BadIndex
          else if struct_size (type_heap st ! h) \<noteq> None then Inr (False, st)
          else Inr (True, st\<lparr>type_heap := (type_heap st)[h := (type_heap st ! h)\<lparr>struct_size := Some sz\<rparr>]\<rparr>))"

definition DEBUG_AddStructElement :: "dtref option \<Rightarrow> string \<Rightarrow> dtref option \<Rightarrow> int \<Rightarrow> int \<Rightarrow> stabs_state \<Rightarrow> fault + stabs_state" where
  \<comment> \<open>Modelled from the spec: types.c is missing; \<^verbatim>\<open>add_struct_field\<close> and
      \<^verbatim>\<open>add_enum_member\<close> append in declaration order\<close>
  "DEBUG_AddStructElement dt name tp offset sz st =
     update_node dt (\<lambda>n. n\<lparr>elements := elements n @ [(name, tp, offset, sz)]\<rparr>) st"

section \<open>Type tables and the include stack\<close>

text \<open>
  A \<^verbatim>\<open>struct datatype **\<close> returned by the resolver points into the vector of the
  compilation unit or of an include file. The model names the slot by its vector and
  subscript. The resolver calls \<^verbatim>\<open>DBG_realloc\<close> on a vector exactly when it makes the
  vector longer, and a pointer taken into the vector before that is \<open>stale\<close> afterwards.
  The second sweep of DEBUG\_ParseTypedefStab holds such a pointer (\<^verbatim>\<open>dt\<close>) while the
  resolver runs again, in the cases \<^verbatim>\<open>'('\<close>, \<^verbatim>\<open>'s'\<close> and \<^verbatim>\<open>'u'\<close>.
\<close>

datatype slot = CuSlot nat | IncSlot nat nat

definition MAX_INCLUDES :: nat where
  "MAX_INCLUDES = 256"

definition grow :: "dtref option list \<Rightarrow> nat \<Rightarrow> dtref option list" where
  \<comment> \<open>\<^verbatim>\<open>DBG_realloc\<close> to \<^verbatim>\<open>subnr+1\<close> entries and \<^verbatim>\<open>memset\<close> of the new ones\<close>
  "grow v subnr = (if length v \<le> subnr then v @ replicate (subnr + 1 - length v) None else v)"

definition slot_get :: "stabs_state \<Rightarrow> slot \<Rightarrow> dtref option" where
  \<comment> \<open>\<^verbatim>\<open>*dt\<close>\<close>
  "slot_get st dt =
     (case dt of
        CuSlot n \<Rightarrow> if n < length (cu_vector st) then cu_vector st ! n else None
      | IncSlot i n \<Rightarrow>
          if i < length (include_defs st) \<and> n < length (inc_vector (include_defs st ! i))
          then inc_vector (include_defs st ! i) ! n else None)"

definition slot_set :: "slot \<Rightarrow> dtref option \<Rightarrow> stabs_state \<Rightarrow> stabs_state" where
  \<comment> \<open>\<^verbatim>\<open>*dt = v\<close>\<close>
  "slot_set dt v st =
     (case dt of
        CuSlot n \<Rightarrow> st\<lparr>cu_vector := (cu_vector st)[n := v]\<rparr>
      | IncSlot i n \<Rightarrow>
          st\<lparr>include_defs := (include_defs st)
               [i := (include_defs st ! i)\<lparr>inc_vector := (inc_vector (include_defs st ! i))[n := v]\<rparr>]\<rparr>)"

definition vector_of :: "stabs_state \<Rightarrow> slot \<Rightarrow> dtref option list" where
  "vector_of st dt =
     (case dt of CuSlot n \<Rightarrow> cu_vector st | IncSlot i n \<Rightarrow> inc_vector (include_defs st ! i))"

definition stale :: "stabs_state \<Rightarrow> stabs_state \<Rightarrow> slot \<Rightarrow> bool" where
  \<comment> \<open>the vector of the slot has been reallocated (line 259 or 275) between the two states\<close>
  "stale st st' dt = (length (vector_of st' dt) \<noteq> length (vector_of st dt))"

definition DEBUG_CreateInclude :: "string \<Rightarrow> 32 word \<Rightarrow> stabs_state \<Rightarrow> int \<times> stabs_state" where
  "DEBUG_CreateInclude file val st =
     (int (length (include_defs st)),
      st\<lparr>include_defs := include_defs st @ [\<lparr>inc_name = file, inc_value = val, inc_vector = []\<rparr>]\<rparr>)"

fun find_include_from :: "nat \<Rightarrow> include_def list \<Rightarrow> string \<Rightarrow> 32 word \<Rightarrow> int" where
  "find_include_from i [] file val = - 1"
| "find_include_from i (d # ds) file val =
     (if val = inc_value d \<and> file = inc_name d then int i else find_include_from (Suc i) ds file val)"

definition DEBUG_FindInclude :: "string \<Rightarrow> 32 word \<Rightarrow> stabs_state \<Rightarrow> int" where
  "DEBUG_FindInclude file val st = find_include_from 0 (include_defs st) file val"

definition DEBUG_AddInclude :: "int \<Rightarrow> stabs_state \<Rightarrow> fault + (nat \<times> stabs_state)" where
  "DEBUG_AddInclude idx st =
     (let k = cu_include_stk_idx st + 1
      in if \<not> k < MAX_INCLUDES then Inl AssertFailed
         else Inr (k, st\<lparr>cu_include_stk_idx := k, cu_include_stack := (cu_include_stack st)(k := idx)\<rparr>))"

definition DEBUG_ResetIncludes :: "stabs_state \<Rightarrow> stabs_state" where
  "DEBUG_ResetIncludes st =
     st\<lparr>cu_include_stk_idx := 0, cu_vector := replicate (length (cu_vector st)) None\<rparr>"

definition DEBUG_FileSubNr2StabEnum :: "int \<Rightarrow> int \<Rightarrow> stabs_state \<Rightarrow> fault + (slot \<times> stabs_state)" where
  "DEBUG_FileSubNr2StabEnum filenr subnr st =
     (if filenr = 0 then
        (if subnr < 0 then Inl BadIndex
         else Inr (CuSlot (nat subnr), st\<lparr>cu_vector := grow (cu_vector st) (nat subnr)\<rparr>))
      else if \<not> filenr \<le> int (cu_include_stk_idx st) then Inl AssertFailed
      else if filenr < 0 then Inl BadIndex
      else
        (let i = cu_include_stack st (nat filenr)
         in if i < 0 \<or> int (length (include_defs st)) \<le> i \<or> subnr < 0 then Inl BadIndex
            else Inr (IncSlot (nat i) (nat subnr),
                      st\<lparr>include_defs := (include_defs st)
                           [nat i := (include_defs st ! nat i)
                              \<lparr>inc_vector := grow (inc_vector (include_defs st ! nat i)) (nat subnr)\<rparr>]\<rparr>)))"

definition DEBUG_ReadTypeEnum :: "string \<Rightarrow> stabs_state \<Rightarrow> fault + (slot \<times> string \<times> stabs_state)" where
  "DEBUG_ReadTypeEnum x st =
     (if deref x = CHR ''('' then
        (let (filenr, x1) = strtol (tl x) in
         case advance x1 of Inl e \<Rightarrow> Inl e
         | Inr x2 \<Rightarrow>
            (let (subnr, x3) = strtol x2 in
             case advance x3 of Inl e \<Rightarrow> Inl e
             | Inr x4 \<Rightarrow>
                (case DEBUG_FileSubNr2StabEnum filenr subnr st of Inl e \<Rightarrow> Inl e
                 | Inr (dt, st') \<Rightarrow> Inr (dt, x4, st'))))
      else
        (let (subnr, x1) = strtol x in
         case DEBUG_FileSubNr2StabEnum 0 subnr st of Inl e \<Rightarrow> Inl e
         | Inr (dt, st') \<Rightarrow> Inr (dt, x1, st')))"

definition DEBUG_ReadTypeEnumBackwards :: "string \<Rightarrow> string \<Rightarrow> stabs_state \<Rightarrow> fault + (slot \<times> stabs_state)" where
  \<comment> \<open>\<^verbatim>\<open>DEBUG_ReadTypeEnumBackwards(c-1)\<close>: \<open>pre\<close> is the buffer before \<^verbatim>\<open>c\<close> and \<open>post\<close>
      the text from \<^verbatim>\<open>c\<close> on, which the forward \<^verbatim>\<open>strtol\<close> and \<^verbatim>\<open>atol\<close> run into\<close>
  "DEBUG_ReadTypeEnumBackwards pre post st =
     (if pre = [] then Inl ReadBeforeStart
      else if last pre = CHR '')'' then
        (if CHR ''('' \<notin> set pre then Inl ReadBeforeStart
         else
           (let (filenr, x1) = strtol (rev (takeWhile (\<lambda>c. c \<noteq> CHR ''('') (rev pre)) @ post) in
            case advance x1 of Inl e \<Rightarrow> Inl e
            | Inr x2 \<Rightarrow> DEBUG_FileSubNr2StabEnum filenr (fst (strtol x2)) st))
      else if list_all is_digit pre then Inl ReadBeforeStart
      else DEBUG_FileSubNr2StabEnum 0 (fst (strtol (rev (takeWhile is_digit (rev pre)) @ post))) st)"

section \<open>The typedef registry\<close>

definition DEBUG_RegisterTypedef :: "string \<Rightarrow> dtref option list \<Rightarrow> nat \<Rightarrow> stabs_state \<Rightarrow> stabs_state" where
  "DEBUG_RegisterTypedef name types ndef st =
     (if ndef = 1 then st
      else st\<lparr>ktd_head := (ktd_head st)
             (stab_hash name :=
                \<lparr>ktd_name = name, ktd_types = take ndef types\<rparr> # ktd_head st (stab_hash name))\<rparr>)"

datatype expectation = Expect debug_type | Wildcard

definition expect_of :: "char \<Rightarrow> expectation option" where
  \<comment> \<open>the \<^verbatim>\<open>switch(ptr[1])\<close> of DEBUG\_HandlePreviousTypedef; \<open>None\<close> is its default case\<close>
  "expect_of t =
     (if t = CHR ''*'' then Some (Expect DT_POINTER)
      else if t = CHR ''s'' \<or> t = CHR ''u'' then Some (Expect DT_STRUCT)
      else if t = CHR ''a'' then Some (Expect DT_ARRAY)
      else if t = CHR ''('' then Some Wildcard
      else if t = CHR ''1'' \<or> t = CHR ''r'' then Some (Expect DT_BASIC)
      else if t = CHR ''x'' then Some (Expect DT_STRUCT)
      else if t = CHR ''e'' then Some (Expect DT_ENUM)
      else if t = CHR ''f'' then Some (Expect DT_FUNC)
      else None)"

fun check_defs :: "known_typedef \<Rightarrow> string \<Rightarrow> nat \<Rightarrow> stabs_state \<Rightarrow> fault + (bool \<times> nat \<times> stabs_state)" where
  "check_defs ktd [] count st = Inr (True, count, st)"
| "check_defs ktd (c # cs) count st =
     (if c \<noteq> CHR ''='' then check_defs ktd cs count st
      else if count \<ge> length (ktd_types ktd) then Inr (False, count, st)
      else
        (case expect_of (deref cs) of
           None \<Rightarrow> Inr (False, count, DEBUG_Printf (UnknownType (deref cs)) st)
         | Some Wildcard \<Rightarrow> check_defs ktd cs (count + 1) st
         | Some (Expect k) \<Rightarrow>
             (case DEBUG_GetType (ktd_types ktd ! count) st of
                Inl e \<Rightarrow> Inl e
              | Inr k' \<Rightarrow> if k \<noteq> k' then Inr (False, count, st) else check_defs ktd cs (count + 1) st)))"

fun rebind_defs :: "known_typedef \<Rightarrow> string \<Rightarrow> string \<Rightarrow> nat \<Rightarrow> stabs_state \<Rightarrow> fault + stabs_state" where
  "rebind_defs ktd pre [] count st = Inr st"
| "rebind_defs ktd pre (c # cs) count st =
     (if c \<noteq> CHR ''='' then rebind_defs ktd (pre @ [c]) cs count st
      else
        (case DEBUG_ReadTypeEnumBackwards pre (c # cs) st of
           Inl e \<Rightarrow> Inl e
         | Inr (dt, st1) \<Rightarrow>
             if count < length (ktd_types ktd)
             then rebind_defs ktd (pre @ [c]) cs (count + 1) (slot_set dt (ktd_types ktd ! count) st1)
             else Inl BadIndex))"

definition DEBUG_HandlePreviousTypedef :: "string \<Rightarrow> string \<Rightarrow> stabs_state \<Rightarrow> fault + (bool \<times> stabs_state)" where
  "DEBUG_HandlePreviousTypedef name stab st =
     (case List.find (\<lambda>k. ktd_name k = name) (ktd_head st (stab_hash name)) of
        None \<Rightarrow> Inr (False, st)
      | Some ktd \<Rightarrow>
          (case check_defs ktd stab 0 st of
             Inl e \<Rightarrow> Inl e
           | Inr (ok, count, st1) \<Rightarrow>
               if \<not> ok then Inr (False, st1)
               else if length (ktd_types ktd) \<noteq> count then Inr (False, st1)
               else
                 (case rebind_defs ktd [] stab 0 st1 of
                    Inl e \<Rightarrow> Inl e
                  | Inr st2 \<Rightarrow> Inr (True, st2))))"

section \<open>DEBUG\_ParseTypedefStab\<close>

subsection \<open>First sweep: the skeletons\<close>

definition new_skeleton :: "slot \<Rightarrow> debug_type \<Rightarrow> string option \<Rightarrow> stabs_state \<Rightarrow> dtref option \<times> stabs_state" where
  \<comment> \<open>\<^verbatim>\<open>*dt = DEBUG_NewDataType(kind, name); curr_types[ntypes++] = *dt;\<close>\<close>
  "new_skeleton dt xtype typename st =
     (let (h, st1) = DEBUG_NewDataType xtype typename st
      in (Some h, slot_set dt (Some h) st1))"

definition pass1_case :: "string \<Rightarrow> string option \<Rightarrow> slot \<Rightarrow> stabs_state \<Rightarrow> fault + (dtref option \<times> stabs_state) option" where
  \<comment> \<open>the \<^verbatim>\<open>switch(c[1])\<close> of the first loop; \<open>cs\<close> is the text after the \<^verbatim>\<open>'='\<close>;
      \<open>Inr None\<close> is the default case\<close>
  "pass1_case cs typename dt st =
     (let t = deref cs in
      if t = CHR ''*'' then Inr (Some (new_skeleton dt DT_POINTER None st))
      else if t = CHR ''s'' \<or> t = CHR ''u'' then Inr (Some (new_skeleton dt DT_STRUCT typename st))
      else if t = CHR ''a'' then Inr (Some (new_skeleton dt DT_ARRAY None st))
      else if t = CHR ''('' then Inr (Some (None, st))
      else if t = CHR ''1'' \<or> t = CHR ''r'' then Inr (Some (new_skeleton dt DT_BASIC typename st))
      else if t = CHR ''x'' then
        (if length cs < 2 then Inl ReadPastEnd
         else
           (case stab_strcpy 1024 (drop 2 cs) of
              Inl e \<Rightarrow> Inl e
            | Inr element_name \<Rightarrow> Inr (Some (new_skeleton dt DT_STRUCT (Some element_name) st))))
      else if t = CHR ''e'' then Inr (Some (new_skeleton dt DT_ENUM None st))
      else if t = CHR ''f'' then Inr (Some (new_skeleton dt DT_FUNC None st))
      else Inr None)"

fun pass1 :: "string \<Rightarrow> string \<Rightarrow> string option \<Rightarrow> dtref option list \<Rightarrow> stabs_state
    \<Rightarrow> fault + (bool \<times> string option \<times> dtref option list \<times> stabs_state)" where
  "pass1 pre [] typename curr_types st = Inr (True, typename, curr_types, st)"
| "pass1 pre (c # cs) typename curr_types st =
     (if c \<noteq> CHR ''='' then pass1 (pre @ [c]) cs typename curr_types st
      else
        (case DEBUG_ReadTypeEnumBackwards pre (c # cs) st of
           Inl e \<Rightarrow> Inl e
         | Inr (dt, st1) \<Rightarrow>
             (case pass1_case cs typename dt st1 of
                Inl e \<Rightarrow> Inl e
              | Inr None \<Rightarrow>
                  Inr (False, typename, curr_types, DEBUG_Printf (UnknownType (deref cs)) st1)
              | Inr (Some (v, st2)) \<Rightarrow> pass1 (pre @ [c]) cs None (curr_types @ [v]) st2)))"

subsection \<open>Second sweep: the definitions, right to left\<close>

text \<open>Every scanning routine returns a pointer further along the same string.\<close>

lemma strtol_digits_suffix: "suffix (snd (strtol_digits acc s)) s"
  by (induction s arbitrary: acc) (auto simp: suffix_Cons)

lemma strtol_suffix: "suffix (snd (strtol s)) s"
proof -
  have a: "suffix (dropWhile is_space s) s"
    by (rule suffix_dropWhile)
  have b: "suffix (tl (dropWhile is_space s)) s"
    using a suffix_order.trans suffix_tl by blast
  show ?thesis
    using a b suffix_order.trans [OF strtol_digits_suffix a] suffix_order.trans [OF strtol_digits_suffix b]
    by (auto simp: strtol_def Let_def split: prod.splits)
       (metis snd_conv)+
qed

lemma strtol_suffix': "strtol s = (v, r) \<Longrightarrow> suffix r s"
  using strtol_suffix [of s] by simp

lemma advance_Inr: "advance p = Inr r \<Longrightarrow> \<exists>c. p = c # r"
  by (cases p) (auto simp: advance_def)

lemma advance_suffix: "advance p = Inr r \<Longrightarrow> suffix r p"
  by (auto dest!: advance_Inr simp: suffix_Cons)

lemma advance_length: "advance p = Inr r \<Longrightarrow> length r < length p"
  by (auto dest!: advance_Inr)

lemma ReadTypeEnum_suffix:
  assumes "DEBUG_ReadTypeEnum x st = Inr (dt, x', st')"
  shows "suffix x' x"
proof (cases "deref x = CHR ''(''")
  case True
  obtain filenr x1 where s1: "strtol (tl x) = (filenr, x1)" by (cases "strtol (tl x)")
  from assms True s1 obtain x2 where a1: "advance x1 = Inr x2"
    by (auto simp: DEBUG_ReadTypeEnum_def split: sum.splits)
  obtain subnr x3 where s2: "strtol x2 = (subnr, x3)" by (cases "strtol x2")
  from assms True s1 a1 s2 have a2: "advance x3 = Inr x'"
    by (auto simp: DEBUG_ReadTypeEnum_def split: sum.splits)
  have "suffix x' x3" using a2 by (rule advance_suffix)
  also have "suffix x3 x2" using s2 by (rule strtol_suffix')
  also have "suffix x2 x1" using a1 by (rule advance_suffix)
  also have "suffix x1 (tl x)" using s1 by (rule strtol_suffix')
  also have "suffix (tl x) x" by (rule suffix_tl)
  finally show ?thesis .
next
  case False
  with assms show ?thesis
    by (auto simp: DEBUG_ReadTypeEnum_def split: sum.splits prod.splits dest: strtol_suffix')
qed

definition read_name :: "string \<Rightarrow> fault + (string \<times> string)" where
  \<comment> \<open>\<^verbatim>\<open>tc2 = element_name; while(*tc != ':') *tc2++ = *tc++; tc++; *tc2++ = '\0';\<close>
      with \<^verbatim>\<open>char element_name[1024]\<close>\<close>
  "read_name tc =
     (if CHR '':'' \<notin> set tc then Inl ReadPastEnd
      else if \<not> length (takeWhile (\<lambda>c. c \<noteq> CHR '':'') tc) < 1024 then Inl BufferOverflow
      else Inr (takeWhile (\<lambda>c. c \<noteq> CHR '':'') tc, tl (dropWhile (\<lambda>c. c \<noteq> CHR '':'') tc)))"

lemma read_name_suffix: "read_name tc = Inr (n, tc') \<Longrightarrow> suffix tc' tc"
  using suffix_order.trans [OF suffix_tl suffix_dropWhile]
  by (auto simp: read_name_def split: if_splits)

lemma read_name_length: "read_name tc = Inr (n, tc') \<Longrightarrow> length tc' < length tc"
proof -
  assume a: "read_name tc = Inr (n, tc')"
  then have c: "CHR '':'' \<in> set tc" and t: "tc' = tl (dropWhile (\<lambda>c. c \<noteq> CHR '':'') tc)"
    by (auto simp: read_name_def split: if_splits)
  from c have "dropWhile (\<lambda>c. c \<noteq> CHR '':'') tc \<noteq> []" by simp
  then have "length tc' < length (dropWhile (\<lambda>c. c \<noteq> CHR '':'') tc)"
    using t by (cases "dropWhile (\<lambda>c. c \<noteq> CHR '':'') tc") auto
  also have "\<dots> \<le> length tc" by (rule length_dropWhile_le)
  finally show ?thesis .
qed

record field_spec =
  fld_name :: string              \<comment> \<open>\<^verbatim>\<open>element_name\<close>\<close>
  fld_ref :: string               \<comment> \<open>the text of the type reference, \<^verbatim>\<open>ti\<close> after \<^verbatim>\<open>*tc = '\0'\<close>\<close>
  fld_type :: "dtref option"      \<comment> \<open>\<^verbatim>\<open>datatype\<close>\<close>
  fld_offset :: int
  fld_size :: int

definition parse_field :: "string \<Rightarrow> stabs_state \<Rightarrow> fault + (field_spec \<times> string \<times> stabs_state)" where
  \<comment> \<open>lines 667 to 680: \<^verbatim>\<open><name>:<type-ref>,<offset>,<size>;\<close>\<close>
  "parse_field tc st =
     (case read_name tc of Inl e \<Rightarrow> Inl e
      | Inr (element_name, ti) \<Rightarrow>
     (case DEBUG_ReadTypeEnum ti st of Inl e \<Rightarrow> Inl e
      | Inr (dt2, tc1, st1) \<Rightarrow>
     (case advance tc1 of Inl e \<Rightarrow> Inl e
      | Inr tc2 \<Rightarrow>
     (case advance (snd (strtol tc2)) of Inl e \<Rightarrow> Inl e
      | Inr tc4 \<Rightarrow>
     (case advance (snd (strtol tc4)) of Inl e \<Rightarrow> Inl e
      | Inr tc6 \<Rightarrow>
          Inr (\<lparr>fld_name = element_name, fld_ref = take (length ti - length tc1) ti,
                fld_type = slot_get st1 dt2, fld_offset = fst (strtol tc2),
                fld_size = fst (strtol tc4)\<rparr>, tc6, st1))))))"

definition struct_field :: "dtref option \<Rightarrow> string \<Rightarrow> stabs_state \<Rightarrow> fault + (string \<times> bool \<times> stabs_state)" where
  \<comment> \<open>one round of the \<^verbatim>\<open>while(*tc != ';')\<close> loop of a struct or union; the flag says
      whether this field set \<^verbatim>\<open>failure\<close>\<close>
  "struct_field curr_type tc st =
     (case parse_field tc st of Inl e \<Rightarrow> Inl e
      | Inr (f, tc6, st1) \<Rightarrow>
          (case fld_type f of
             Some d \<Rightarrow>
               (case DEBUG_AddStructElement curr_type (fld_name f) (Some d)
                       (fld_offset f) (fld_size f) st1 of
                  Inl e \<Rightarrow> Inl e
                | Inr st2 \<Rightarrow> Inr (tc6, False, st2))
           | None \<Rightarrow> Inr (tc6, True, DEBUG_Printf (FieldFailure (fld_ref f)) st1)))"

lemma parse_field_suffix:
  assumes "parse_field tc st = Inr (f, tc', st')"
  shows "suffix tc' tc"
proof -
  from assms obtain element_name ti dt2 tc1 st1 tc2 tc4 where
    r: "read_name tc = Inr (element_name, ti)" and
    e: "DEBUG_ReadTypeEnum ti st = Inr (dt2, tc1, st1)" and
    a1: "advance tc1 = Inr tc2" and
    a2: "advance (snd (strtol tc2)) = Inr tc4" and
    a3: "advance (snd (strtol tc4)) = Inr tc'"
    by (auto simp: parse_field_def split: sum.splits)
  have "suffix tc' (snd (strtol tc4))" using a3 by (rule advance_suffix)
  also have "suffix \<dots> tc4" by (rule strtol_suffix)
  also have "suffix tc4 (snd (strtol tc2))" using a2 by (rule advance_suffix)
  also have "suffix \<dots> tc2" by (rule strtol_suffix)
  also have "suffix tc2 tc1" using a1 by (rule advance_suffix)
  also have "suffix tc1 ti" using e by (rule ReadTypeEnum_suffix)
  also have "suffix ti tc" using r by (rule read_name_suffix)
  finally show ?thesis .
qed

lemma parse_field_length:
  assumes "parse_field tc st = Inr (f, tc', st')"
  shows "length tc' < length tc"
proof -
  from assms obtain element_name ti dt2 tc1 st1 tc2 tc4 where
    r: "read_name tc = Inr (element_name, ti)" and
    e: "DEBUG_ReadTypeEnum ti st = Inr (dt2, tc1, st1)" and
    a1: "advance tc1 = Inr tc2" and
    a2: "advance (snd (strtol tc2)) = Inr tc4" and
    a3: "advance (snd (strtol tc4)) = Inr tc'"
    by (auto simp: parse_field_def split: sum.splits)
  have "length tc' < length (snd (strtol tc4))" using a3 by (rule advance_length)
  also have "\<dots> \<le> length tc4" using strtol_suffix by (rule suffix_length_le)
  also have "\<dots> \<le> length (snd (strtol tc2))" using a2 advance_length by fastforce
  also have "\<dots> \<le> length tc2" using strtol_suffix by (rule suffix_length_le)
  also have "\<dots> \<le> length tc1" using a1 advance_length by fastforce
  also have "\<dots> \<le> length ti" using ReadTypeEnum_suffix [OF e] by (rule suffix_length_le)
  also have "\<dots> \<le> length tc" using read_name_length [OF r] by simp
  finally show ?thesis .
qed

lemma struct_field_parse:
  assumes "struct_field curr_type tc st = Inr (tc', failed, st')"
  shows "\<exists>f st1. parse_field tc st = Inr (f, tc', st1)"
  using assms by (auto simp: struct_field_def split: sum.splits option.splits)

lemma struct_field_length:
  assumes "struct_field curr_type tc st = Inr (tc', failed, st')"
  shows "length tc' < length tc"
  using struct_field_parse [OF assms] parse_field_length by blast

function struct_loop :: "dtref option \<Rightarrow> string \<Rightarrow> bool \<Rightarrow> stabs_state \<Rightarrow> fault + (string \<times> bool \<times> stabs_state)" where
  "struct_loop curr_type tc failure st =
     (if deref tc = CHR '';'' then Inr (tc, failure, st)
      else
        (case struct_field curr_type tc st of
           Inl e \<Rightarrow> Inl e
         | Inr (tc', failed, st') \<Rightarrow> struct_loop curr_type tc' (failure \<or> failed) st'))"
  by pat_completeness auto
termination
  by (relation "measure (\<lambda>(curr_type, tc, failure, st). length tc)")
     (auto dest: struct_field_length)

declare struct_loop.simps [simp del]

definition enum_member :: "dtref option \<Rightarrow> string \<Rightarrow> stabs_state \<Rightarrow> fault + (string \<times> stabs_state)" where
  \<comment> \<open>one round of the \<^verbatim>\<open>while(*tc != ';')\<close> loop of an enumeration\<close>
  "enum_member curr_type tc st =
     (case read_name tc of Inl e \<Rightarrow> Inl e
      | Inr (element_name, tc1) \<Rightarrow>
     (case advance (snd (strtol tc1)) of Inl e \<Rightarrow> Inl e
      | Inr tc3 \<Rightarrow>
     (case DEBUG_AddStructElement curr_type element_name None (fst (strtol tc1)) 0 st of
        Inl e \<Rightarrow> Inl e
      | Inr st1 \<Rightarrow> Inr (tc3, st1))))"

lemma enum_member_length:
  assumes "enum_member curr_type tc st = Inr (tc', st')"
  shows "length tc' < length tc"
proof -
  from assms obtain element_name tc1 where
    r: "read_name tc = Inr (element_name, tc1)" and
    a: "advance (snd (strtol tc1)) = Inr tc'"
    by (auto simp: enum_member_def split: sum.splits)
  have "length tc' < length (snd (strtol tc1))" using a by (rule advance_length)
  also have "\<dots> \<le> length tc1" using strtol_suffix by (rule suffix_length_le)
  also have "\<dots> \<le> length tc" using read_name_length [OF r] by simp
  finally show ?thesis .
qed

function enum_loop :: "dtref option \<Rightarrow> string \<Rightarrow> stabs_state \<Rightarrow> fault + (string \<times> stabs_state)" where
  "enum_loop curr_type tc st =
     (if deref tc = CHR '';'' then Inr (tc, st)
      else
        (case enum_member curr_type tc st of
           Inl e \<Rightarrow> Inl e
         | Inr (tc', st') \<Rightarrow> enum_loop curr_type tc' st'))"
  by pat_completeness auto
termination
  by (relation "measure (\<lambda>(curr_type, tc, st). length tc)")
     (auto dest: enum_member_length)

declare enum_loop.simps [simp del]

fun skip_sized :: "string \<Rightarrow> fault + string" where
  \<comment> \<open>\<^verbatim>\<open>while( tc[0] != ';' && tc[1] != ';' ) tc++;\<close>\<close>
  "skip_sized [] = Inl ReadPastEnd"
| "skip_sized (a # r) = (if a = CHR '';'' \<or> deref r = CHR '';'' then Inr (a # r) else skip_sized r)"

definition set_curr_type :: "int \<Rightarrow> dtref option \<Rightarrow> dtref option list \<Rightarrow> fault + dtref option list" where
  \<comment> \<open>\<^verbatim>\<open>curr_types[ntp] = v\<close>\<close>
  "set_curr_type ntp v curr_types =
     (if 0 \<le> ntp \<and> ntp < int (length curr_types) then Inr (curr_types[nat ntp := v])
      else Inl BadIndex)"

definition case_xref :: "string \<Rightarrow> fault + string" where
  \<comment> \<open>case \<^verbatim>\<open>'x'\<close>: \<^verbatim>\<open>tc = c + 3; while( *tc != ':' ) tc++; tc++;\<close>\<close>
  "case_xref post =
     (if length post < 2 \<or> CHR '':'' \<notin> set (drop 2 post) then Inl ReadPastEnd
      else Inr (tl (dropWhile (\<lambda>c. c \<noteq> CHR '':'') (drop 2 post))))"

definition case_pointer :: "string \<Rightarrow> dtref option \<Rightarrow> stabs_state \<Rightarrow> fault + (string \<times> stabs_state)" where
  \<comment> \<open>cases \<^verbatim>\<open>'*'\<close> and \<^verbatim>\<open>'f'\<close>\<close>
  "case_pointer post curr_type st =
     (case DEBUG_ReadTypeEnum (tl post) st of Inl e \<Rightarrow> Inl e
      | Inr (dt2, tc, st1) \<Rightarrow>
     (case DEBUG_SetPointerType curr_type (slot_get st1 dt2) st1 of Inl e \<Rightarrow> Inl e
      | Inr st2 \<Rightarrow> Inr (tc, st2)))"

definition case_ref :: "string \<Rightarrow> slot \<Rightarrow> string option \<Rightarrow> stabs_state \<Rightarrow> fault + (string \<times> stabs_state)" where
  \<comment> \<open>case \<^verbatim>\<open>'('\<close>, up to the \<^verbatim>\<open>strcpy\<close>; \<^verbatim>\<open>*dt\<close> is read after the resolver has run for \<^verbatim>\<open>dt2\<close>\<close>
  "case_ref post dt typename st =
     (case DEBUG_ReadTypeEnum post st of Inl e \<Rightarrow> Inl e
      | Inr (dt2, tc, st1) \<Rightarrow>
          if stale st st1 dt then Inl StalePointer
          else if slot_get st1 dt = None \<and> slot_get st1 dt2 \<noteq> None
          then Inr (tc, slot_set dt (slot_get st1 dt2) st1)
          else if slot_get st1 dt = None \<and> slot_get st1 dt2 = None
          then (let (h, st2) = DEBUG_NewDataType DT_BASIC typename st1
                in Inr (tc, slot_set dt2 (Some h) (slot_set dt (Some h) st2)))
          else Inr (tc, DEBUG_Printf (UnknownCondition (slot_get st1 dt) (slot_get st1 dt2)) st1))"

definition case_array :: "string \<Rightarrow> dtref option \<Rightarrow> stabs_state \<Rightarrow> fault + (string \<times> stabs_state)" where
  \<comment> \<open>case \<^verbatim>\<open>'a'\<close>: \<^verbatim>\<open>ar<typeinfo_nodef>;<int>;<int>;<typeinfo>\<close>\<close>
  "case_array post curr_type st =
     (if length post < 2 then Inl ReadPastEnd
      else
     (case DEBUG_ReadTypeEnum (drop 2 post) st of Inl e \<Rightarrow> Inl e
      | Inr (dt1, tc1, st1) \<Rightarrow>
     (case advance tc1 of Inl e \<Rightarrow> Inl e
      | Inr tc2 \<Rightarrow>
     (case advance (snd (strtol tc2)) of Inl e \<Rightarrow> Inl e
      | Inr tc4 \<Rightarrow>
     (case advance (snd (strtol tc4)) of Inl e \<Rightarrow> Inl e
      | Inr tc6 \<Rightarrow>
     (case DEBUG_ReadTypeEnum tc6 st1 of Inl e \<Rightarrow> Inl e
      | Inr (dt2, tc7, st2) \<Rightarrow>
     (case DEBUG_SetArrayParams curr_type (fst (strtol tc2)) (fst (strtol tc4))
             (slot_get st2 dt2) st2 of
        Inl e \<Rightarrow> Inl e
      | Inr st3 \<Rightarrow> Inr (tc7, st3))))))))"

definition case_struct :: "string \<Rightarrow> slot \<Rightarrow> dtref option \<Rightarrow> stabs_state \<Rightarrow> fault + (string \<times> stabs_state)" where
  \<comment> \<open>cases \<^verbatim>\<open>'s'\<close> and \<^verbatim>\<open>'u'\<close>; the result is the text that \<^verbatim>\<open>strcpy\<close> moves to \<^verbatim>\<open>c\<close>;
      \<^verbatim>\<open>*dt = NULL\<close> is executed after the resolver has run for every field\<close>
  "case_struct post dt curr_type st =
     (case DEBUG_SetStructSize curr_type (fst (strtol (tl post))) st of Inl e \<Rightarrow> Inl e
      | Inr (fresh, st1) \<Rightarrow>
          if \<not> fresh then
            (case skip_sized (snd (strtol (tl post))) of Inl e \<Rightarrow> Inl e
             | Inr tc \<Rightarrow>
                 if length tc < 2 then Inl ReadPastEnd
                 else Inr (drop 3 tc, st1))
          else
            (case struct_loop curr_type (snd (strtol (tl post))) False st1 of Inl e \<Rightarrow> Inl e
             | Inr (tc, failure, st2) \<Rightarrow>
                 if \<not> failure then Inr (tl tc, st2)
                 else if stale st st2 dt then Inl StalePointer
                 else Inr (tl tc, slot_set dt None st2)))"

definition case_enum :: "string \<Rightarrow> dtref option \<Rightarrow> stabs_state \<Rightarrow> fault + (string \<times> stabs_state)" where
  \<comment> \<open>case \<^verbatim>\<open>'e'\<close>\<close>
  "case_enum post curr_type st =
     (case enum_loop curr_type (tl post) st of Inl e \<Rightarrow> Inl e
      | Inr (tc, st1) \<Rightarrow> Inr (tl tc, st1))"

definition pass2_case :: "string \<Rightarrow> slot \<Rightarrow> int \<Rightarrow> dtref option list \<Rightarrow> string option \<Rightarrow> stabs_state
    \<Rightarrow> fault + (bool \<times> string \<times> int \<times> dtref option list \<times> stabs_state)" where
  \<comment> \<open>the \<^verbatim>\<open>switch(c[1])\<close> of the second loop; \<open>post\<close> is the text after the \<^verbatim>\<open>'='\<close>;
      the string of the result is what stands at \<^verbatim>\<open>c\<close> afterwards; the flag is false when
      the function returns \<^verbatim>\<open>FALSE\<close>\<close>
  "pass2_case post dt ntp curr_types typename st =
     (let t = deref post; curr_type = slot_get st dt in
      if t = CHR ''x'' then
        (case case_xref post of Inl e \<Rightarrow> Inl e
         | Inr tc \<Rightarrow> Inr (True, tc, ntp - 1, curr_types, st))
      else if t = CHR ''*'' \<or> t = CHR ''f'' then
        (case case_pointer post curr_type st of Inl e \<Rightarrow> Inl e
         | Inr (tc, st1) \<Rightarrow> Inr (True, tc, ntp - 1, curr_types, st1))
      else if t = CHR ''('' then
        (case case_ref post dt typename st of Inl e \<Rightarrow> Inl e
         | Inr (tc, st1) \<Rightarrow>
             (case set_curr_type ntp (slot_get st1 dt) curr_types of Inl e \<Rightarrow> Inl e
              | Inr curr_types1 \<Rightarrow> Inr (True, tc, ntp - 1, curr_types1, st1)))
      else if t = CHR ''1'' \<or> t = CHR ''r'' then Inr (True, [], ntp - 1, curr_types, st)
      else if t = CHR ''a'' then
        (case case_array post curr_type st of Inl e \<Rightarrow> Inl e
         | Inr (tc, st1) \<Rightarrow> Inr (True, tc, ntp - 1, curr_types, st1))
      else if t = CHR ''s'' \<or> t = CHR ''u'' then
        (case case_struct post dt curr_type st of Inl e \<Rightarrow> Inl e
         | Inr (tc, st1) \<Rightarrow> Inr (True, tc, ntp - 1, curr_types, st1))
      else if t = CHR ''e'' then
        (case case_enum post curr_type st of Inl e \<Rightarrow> Inl e
         | Inr (tc, st1) \<Rightarrow> Inr (True, tc, ntp - 1, curr_types, st1))
      else Inr (False, CHR ''='' # post, ntp, curr_types, DEBUG_Printf (UnknownType t) st))"

lemma suffix_tl_trans: "suffix a b \<Longrightarrow> suffix (tl a) b"
  using suffix_order.trans suffix_tl by blast

lemma suffix_drop_trans: "suffix a b \<Longrightarrow> suffix (drop n a) b"
  using suffix_order.trans suffix_drop by blast

lemma struct_field_suffix:
  assumes "struct_field curr_type tc st = Inr (tc', failed, st')"
  shows "suffix tc' tc"
  using struct_field_parse [OF assms] parse_field_suffix by blast

lemma struct_loop_suffix:
  "struct_loop curr_type tc failure st = Inr (tc', failure', st') \<Longrightarrow> suffix tc' tc"
proof (induction curr_type tc failure st rule: struct_loop.induct)
  case (1 curr_type tc failure st)
  show ?case
  proof (cases "deref tc = CHR '';''")
    case True
    with "1.prems" show ?thesis by (simp add: struct_loop.simps)
  next
    case False
    with "1.prems" obtain tc1 failed st1 where
      f: "struct_field curr_type tc st = Inr (tc1, failed, st1)" and
      l: "struct_loop curr_type tc1 (failure \<or> failed) st1 = Inr (tc', failure', st')"
      by (subst (asm) struct_loop.simps) (auto split: sum.splits)
    from "1.IH" [OF False f refl refl l] struct_field_suffix [OF f]
    show ?thesis using suffix_order.trans by blast
  qed
qed

lemma enum_member_suffix:
  assumes "enum_member curr_type tc st = Inr (tc', st')"
  shows "suffix tc' tc"
proof -
  from assms obtain element_name tc1 where
    r: "read_name tc = Inr (element_name, tc1)" and
    a: "advance (snd (strtol tc1)) = Inr tc'"
    by (auto simp: enum_member_def split: sum.splits)
  have "suffix tc' (snd (strtol tc1))" using a by (rule advance_suffix)
  also have "suffix \<dots> tc1" by (rule strtol_suffix)
  also have "suffix tc1 tc" using r by (rule read_name_suffix)
  finally show ?thesis .
qed

lemma enum_loop_suffix:
  "enum_loop curr_type tc st = Inr (tc', st') \<Longrightarrow> suffix tc' tc"
proof (induction curr_type tc st rule: enum_loop.induct)
  case (1 curr_type tc st)
  show ?case
  proof (cases "deref tc = CHR '';''")
    case True
    with "1.prems" show ?thesis by (simp add: enum_loop.simps)
  next
    case False
    with "1.prems" obtain tc1 st1 where
      f: "enum_member curr_type tc st = Inr (tc1, st1)" and
      l: "enum_loop curr_type tc1 st1 = Inr (tc', st')"
      by (subst (asm) enum_loop.simps) (auto split: sum.splits)
    from "1.IH" [OF False f refl l] enum_member_suffix [OF f]
    show ?thesis using suffix_order.trans by blast
  qed
qed

lemma skip_sized_suffix: "skip_sized tc = Inr tc' \<Longrightarrow> suffix tc' tc"
  by (induction tc) (auto simp: suffix_Cons split: if_splits)

lemma case_xref_suffix: "case_xref post = Inr tc \<Longrightarrow> suffix tc post"
  using suffix_tl_trans [OF suffix_order.trans [OF suffix_dropWhile suffix_drop]]
  by (auto simp: case_xref_def split: if_splits)

lemma case_pointer_suffix: "case_pointer post curr_type st = Inr (tc, st') \<Longrightarrow> suffix tc post"
  using suffix_order.trans [OF _ suffix_tl]
  by (auto simp: case_pointer_def split: sum.splits dest!: ReadTypeEnum_suffix)

lemma case_ref_suffix: "case_ref post dt typename st = Inr (tc, st') \<Longrightarrow> suffix tc post"
  by (auto simp: case_ref_def split: sum.splits if_splits prod.splits dest!: ReadTypeEnum_suffix)

lemma case_array_suffix:
  assumes "case_array post curr_type st = Inr (tc, st')"
  shows "suffix tc post"
proof -
  from assms obtain dt1 tc1 st1 tc2 tc4 tc6 dt2 st2 where
    e1: "DEBUG_ReadTypeEnum (drop 2 post) st = Inr (dt1, tc1, st1)" and
    a1: "advance tc1 = Inr tc2" and
    a2: "advance (snd (strtol tc2)) = Inr tc4" and
    a3: "advance (snd (strtol tc4)) = Inr tc6" and
    e2: "DEBUG_ReadTypeEnum tc6 st1 = Inr (dt2, tc, st2)"
    by (auto simp: case_array_def split: sum.splits if_splits)
  have "suffix tc tc6" using e2 by (rule ReadTypeEnum_suffix)
  also have "suffix tc6 (snd (strtol tc4))" using a3 by (rule advance_suffix)
  also have "suffix \<dots> tc4" by (rule strtol_suffix)
  also have "suffix tc4 (snd (strtol tc2))" using a2 by (rule advance_suffix)
  also have "suffix \<dots> tc2" by (rule strtol_suffix)
  also have "suffix tc2 tc1" using a1 by (rule advance_suffix)
  also have "suffix tc1 (drop 2 post)" using e1 by (rule ReadTypeEnum_suffix)
  also have "suffix \<dots> post" by (rule suffix_drop)
  finally show ?thesis .
qed

lemma case_struct_suffix:
  assumes "case_struct post dt curr_type st = Inr (tc, st')"
  shows "suffix tc post"
proof -
  have base: "suffix (snd (strtol (tl post))) post"
    using suffix_order.trans [OF strtol_suffix suffix_tl] .
  from assms obtain fresh st1 where
    sz: "DEBUG_SetStructSize curr_type (fst (strtol (tl post))) st = Inr (fresh, st1)"
    by (auto simp: case_struct_def split: sum.splits)
  show ?thesis
  proof (cases fresh)
    case True
    with assms sz obtain tc1 failure st2 where
      l: "struct_loop curr_type (snd (strtol (tl post))) False st1 = Inr (tc1, failure, st2)"
      and t: "tc = tl tc1"
      by (auto simp: case_struct_def split: sum.splits if_splits)
    have "suffix tc1 post"
      using suffix_order.trans [OF struct_loop_suffix [OF l] base] .
    then show ?thesis using t by (simp add: suffix_tl_trans)
  next
    case False
    with assms sz obtain tc1 where
      l: "skip_sized (snd (strtol (tl post))) = Inr tc1" and t: "tc = drop 3 tc1"
      by (auto simp: case_struct_def split: sum.splits if_splits)
    have "suffix tc1 post"
      using suffix_order.trans [OF skip_sized_suffix [OF l] base] .
    then show ?thesis using t by (simp add: suffix_drop_trans)
  qed
qed

lemma case_enum_suffix: "case_enum post curr_type st = Inr (tc, st') \<Longrightarrow> suffix tc post"
  using suffix_order.trans [OF _ suffix_tl]
  by (auto simp: case_enum_def split: sum.splits dest!: enum_loop_suffix intro: suffix_tl_trans)

lemma pass2_case_suffix:
  assumes "pass2_case post dt ntp curr_types typename st = Inr (True, tc, ntp', curr_types', st')"
  shows "suffix tc post"
  using assms
  by (auto simp: pass2_case_def Let_def split: if_splits sum.splits
           dest: case_xref_suffix case_pointer_suffix case_ref_suffix case_array_suffix
                 case_struct_suffix case_enum_suffix)

lemma strrchr_Some:
  assumes "strrchr s c = Some (pre, post)"
  shows "s = pre @ c # post \<and> c \<notin> set post"
proof -
  from assms have m: "c \<in> set s"
    and pre: "pre = rev (tl (dropWhile (\<lambda>x. x \<noteq> c) (rev s)))"
    and post: "post = rev (takeWhile (\<lambda>x. x \<noteq> c) (rev s))"
    by (auto simp: strrchr_def split: if_splits)
  from m have "dropWhile (\<lambda>x. x \<noteq> c) (rev s) \<noteq> []" by simp
  moreover have "hd (dropWhile (\<lambda>x. x \<noteq> c) (rev s)) = c"
    using m hd_dropWhile [of "\<lambda>x. x \<noteq> c" "rev s"] by simp
  ultimately have d: "dropWhile (\<lambda>x. x \<noteq> c) (rev s) = c # rev pre"
    using pre by (cases "dropWhile (\<lambda>x. x \<noteq> c) (rev s)") auto
  have "rev s = takeWhile (\<lambda>x. x \<noteq> c) (rev s) @ dropWhile (\<lambda>x. x \<noteq> c) (rev s)"
    by simp
  then have "rev s = rev post @ c # rev pre"
    using d post by simp
  then have "s = pre @ c # post"
    by (metis rev_append rev_rev_ident rev.simps(2) append_Cons append_Nil append_assoc)
  moreover have "c \<notin> set post"
    using post by (auto dest: set_takeWhileD)
  ultimately show ?thesis by simp
qed

function pass2 :: "string \<Rightarrow> int \<Rightarrow> dtref option list \<Rightarrow> string option \<Rightarrow> stabs_state
    \<Rightarrow> fault + (bool \<times> string \<times> dtref option list \<times> stabs_state)" where
  "pass2 ptr ntp curr_types typename st =
     (case strrchr ptr (CHR ''='') of
        None \<Rightarrow> Inr (True, ptr, curr_types, st)
      | Some (pre, post) \<Rightarrow>
          (case DEBUG_ReadTypeEnumBackwards pre (CHR ''='' # post) st of
             Inl e \<Rightarrow> Inl e
           | Inr (dt, st1) \<Rightarrow>
               (case pass2_case post dt ntp curr_types typename st1 of
                  Inl e \<Rightarrow> Inl e
                | Inr (ok, tc, ntp', curr_types', st2) \<Rightarrow>
                    if ok then pass2 (pre @ tc) ntp' curr_types' typename st2
                    else Inr (False, ptr, curr_types', st2))))"
  by pat_completeness auto
termination
proof (relation "measure (\<lambda>(ptr, ntp, curr_types, typename, st). length ptr)", goal_cases)
  case 1
  show ?case by simp
next
  case (2 ptr ntp curr_types typename st x2 pre post x2a dt st1 x2b ok y tc ya ntp' yb curr_types' st2)
  then have "suffix tc post"
    using pass2_case_suffix by fastforce
  then have "length tc \<le> length post" by (rule suffix_length_le)
  moreover have "ptr = pre @ CHR ''='' # post"
    using 2 strrchr_Some by fastforce
  ultimately show ?case by simp
qed

declare pass2.simps [simp del]

definition DEBUG_ParseTypedefStab :: "string \<Rightarrow> string \<Rightarrow> stabs_state \<Rightarrow> fault + (bool \<times> string \<times> stabs_state)" where
  \<comment> \<open>the string of the result is the buffer \<^verbatim>\<open>ptr\<close> as the function leaves it\<close>
  "DEBUG_ParseTypedefStab ptr typename st =
     (case DEBUG_HandlePreviousTypedef typename ptr st of Inl e \<Rightarrow> Inl e
      | Inr (seen, st0) \<Rightarrow>
          if seen then Inr (True, ptr, st0)
          else
            (case pass1 [] ptr (Some typename) [] st0 of Inl e \<Rightarrow> Inl e
             | Inr (ok1, typename1, curr_types, st1) \<Rightarrow>
                 if \<not> ok1 then Inr (False, ptr, st1)
                 else
                   (case pass2 ptr (int (length curr_types) - 1) curr_types typename1 st1 of
                      Inl e \<Rightarrow> Inl e
                    | Inr (ok2, ptr2, curr_types2, st2) \<Rightarrow>
                        if \<not> ok2 then Inr (False, ptr2, st2)
                        else Inr (True, ptr2,
                                  DEBUG_RegisterTypedef typename curr_types2 (length curr_types) st2))))"

definition DEBUG_ParseStabType :: "string \<Rightarrow> stabs_state \<Rightarrow> fault + (dtref option \<times> stabs_state)" where
  "DEBUG_ParseStabType stab st =
     (if CHR '':'' \<notin> set stab then Inr (None, st)
      else
        (let c = tl (dropWhile (\<lambda>x. x \<noteq> CHR '':'') stab) in
         case (if deref c \<noteq> CHR ''('' then advance c else Inr c) of Inl e \<Rightarrow> Inl e
         | Inr c1 \<Rightarrow>
             (case DEBUG_ReadTypeEnum c1 st of Inl e \<Rightarrow> Inl e
              | Inr (dt, c2, st1) \<Rightarrow> Inr (slot_get st1 dt, st1))))"

definition init_state :: stabs_state where
  \<comment> \<open>the static initialisers of stabs.c and an empty catalog\<close>
  "init_state =
     \<lparr>ktd_head = (\<lambda>_. []), include_defs = [], cu_include_stack = (\<lambda>_. 0),
      cu_include_stk_idx = 0, cu_vector = [], type_heap = [], dbg_log = []\<rparr>"

section \<open>DEBUG\_ParseStabs\<close>

text \<open>
  The mapped file \<^verbatim>\<open>addr\<close> is a list of bytes and a pointer into it is an offset. The
  array of \<^verbatim>\<open>struct stab_nlist\<close> at \<^verbatim>\<open>addr + staboff\<close> is the list of its entries.
  The function is modelled as it is compiled with \<^verbatim>\<open>__ELF__\<close> defined. The symbol table
  of the debugger (hash.c) is not among the sources: its routines are recorded as events,
  and a handle they return is the position of the event.
\<close>

record stab_nlist =
  n_strx :: nat         \<comment> \<open>\<^verbatim>\<open>(unsigned int) n_un.n_name\<close>\<close>
  n_type :: nat         \<comment> \<open>\<^verbatim>\<open>unsigned char\<close>\<close>
  n_desc :: int         \<comment> \<open>\<^verbatim>\<open>short\<close>\<close>
  n_value :: "32 word"  \<comment> \<open>\<^verbatim>\<open>unsigned long\<close>\<close>

definition N_UNDF :: nat where "N_UNDF = 0x00"
definition N_GSYM :: nat where "N_GSYM = 0x20"
definition N_FUN :: nat where "N_FUN = 0x24"
definition N_STSYM :: nat where "N_STSYM = 0x26"
definition N_LCSYM :: nat where "N_LCSYM = 0x28"
definition N_MAIN :: nat where "N_MAIN = 0x2a"
definition N_OPT :: nat where "N_OPT = 0x3c"
definition N_RSYM :: nat where "N_RSYM = 0x40"
definition N_SLINE :: nat where "N_SLINE = 0x44"
definition N_SO :: nat where "N_SO = 0x64"
definition N_LSYM :: nat where "N_LSYM = 0x80"
definition N_BINCL :: nat where "N_BINCL = 0x82"
definition N_SOL :: nat where "N_SOL = 0x84"
definition N_PSYM :: nat where "N_PSYM = 0xa0"
definition N_EINCL :: nat where "N_EINCL = 0xa2"
definition N_LBRAC :: nat where "N_LBRAC = 0xc0"
definition N_EXCL :: nat where "N_EXCL = 0xc2"
definition N_RBRAC :: nat where "N_RBRAC = 0xe0"

definition PATH_MAX :: nat where
  \<comment> \<open>from \<^verbatim>\<open><limits.h>\<close>\<close>
  "PATH_MAX = 4096"

definition BACKSLASH :: char where
  "BACKSLASH = CHR 0x5C"

datatype strptr =
    InFile int   \<comment> \<open>a pointer into the mapped file\<close>
  | StabBuff     \<comment> \<open>the pointer \<^verbatim>\<open>stabbuff\<close>\<close>
  | Freed        \<comment> \<open>what \<^verbatim>\<open>stabbuff\<close> was before \<^verbatim>\<open>DBG_realloc\<close> was called on it\<close>

datatype event =
    AddSymbol string "32 word" "dtref option" string bool bool
      \<comment> \<open>name, address, type, path, \<^verbatim>\<open>SYM_FUNC\<close> (else \<^verbatim>\<open>SYM_DATA\<close>), \<^verbatim>\<open>SYM_INVALID\<close>\<close>
  | Normalize "nat option"
  | AddLocal nat "32 word" "32 word" string
  | SetLocalSymbolType nat "dtref option"
  | AddLineNumber nat int "32 word"

record parse_locals =
  curr_func :: "nat option"
  currpath :: string
  in_external_file :: bool
  last_nso :: int
  stabbuff :: string
  stabbufflen :: nat
  strs :: int
  strtabinc :: int
  subpath :: "strptr option"
  events :: "event list"
  glob :: stabs_state

definition c_string :: "char list \<Rightarrow> int \<Rightarrow> fault + string" where
  \<comment> \<open>the NUL-terminated string at an offset of the file\<close>
  "c_string mem a =
     (if a < 0 \<or> int (length mem) \<le> a \<or> NUL \<notin> set (drop (nat a) mem) then Inl OutOfBounds
      else Inr (takeWhile (\<lambda>c. c \<noteq> NUL) (drop (nat a) mem)))"

definition peek :: "char list \<Rightarrow> int \<Rightarrow> fault + char" where
  "peek mem a = (if 0 \<le> a \<and> a < int (length mem) then Inr (mem ! nat a) else Inl OutOfBounds)"

definition text_of :: "char list \<Rightarrow> parse_locals \<Rightarrow> strptr \<Rightarrow> fault + string" where
  "text_of mem ls p =
     (case p of InFile a \<Rightarrow> c_string mem a | StabBuff \<Rightarrow> Inr (stabbuff ls)
      | Freed \<Rightarrow> Inl StalePointer)"

definition last_char_index :: "int \<Rightarrow> string \<Rightarrow> int" where
  \<comment> \<open>the offset that \<^verbatim>\<open>ptr[strlen(ptr) - 1]\<close> reads\<close>
  "last_char_index ptr text = ptr + int (length text) - 1"

definition join_stab :: "char list \<Rightarrow> stab_nlist \<Rightarrow> parse_locals \<Rightarrow> fault + (strptr option \<times> parse_locals)" where
  \<comment> \<open>lines 813 to 834: \<open>None\<close> is the \<^verbatim>\<open>continue\<close> of a continued stab, \<open>Some ptr\<close> the
      complete stab; \<^verbatim>\<open>subpath\<close> may hold the pointer \<^verbatim>\<open>stabbuff\<close> that line 825 reallocates\<close>
  "join_stab mem stab_ptr ls =
     (let ptr = strs ls + int (n_strx stab_ptr) in
      case c_string mem ptr of Inl e \<Rightarrow> Inl e
      | Inr text \<Rightarrow>
     (case peek mem (last_char_index ptr text) of Inl e \<Rightarrow> Inl e
      | Inr lastc \<Rightarrow>
          if lastc = BACKSLASH then
            (let len = length text;
                 buflen = (if length (stabbuff ls) + len > stabbufflen ls
                           then stabbufflen ls + 65536 else stabbufflen ls);
                 joined = stabbuff ls @ (if len = 0 then text else take (len - 1) text)
             in if \<not> length joined < buflen then Inl BufferOverflow
                else Inr (None, ls\<lparr>stabbuff := joined, stabbufflen := buflen,
                                   subpath := (if buflen \<noteq> stabbufflen ls \<and> subpath ls = Some StabBuff
                                               then Some Freed else subpath ls)\<rparr>))
          else if stabbuff ls \<noteq> [] then
            (if \<not> length (stabbuff ls @ text) < stabbufflen ls then Inl BufferOverflow
             else Inr (Some StabBuff, ls\<lparr>stabbuff := stabbuff ls @ text\<rparr>))
          else Inr (Some (InFile ptr), ls)))"

definition DEBUG_AddSymbol :: "string \<Rightarrow> 32 word \<Rightarrow> dtref option \<Rightarrow> string \<Rightarrow> bool \<Rightarrow> bool \<Rightarrow> parse_locals \<Rightarrow> nat option \<times> parse_locals" where
  \<comment> \<open>Modelled from the spec: hash.c is missing;
      \<^verbatim>\<open>add_function_symbol\<close> and \<^verbatim>\<open>add_data_symbol\<close> return a handle\<close>
  "DEBUG_AddSymbol name off tp path is_func invalid ls =
     (Some (length (events ls)), ls\<lparr>events := events ls @ [AddSymbol name off tp path is_func invalid]\<rparr>)"

definition DEBUG_Normalize :: "nat option \<Rightarrow> parse_locals \<Rightarrow> parse_locals" where
  \<comment> \<open>Modelled from the spec: hash.c is missing; the flush of the current function\<close>
  "DEBUG_Normalize f ls = ls\<lparr>events := events ls @ [Normalize f]\<rparr>"

definition add_local :: "string \<Rightarrow> nat \<Rightarrow> 32 word \<Rightarrow> 32 word \<Rightarrow> parse_locals \<Rightarrow> fault + parse_locals" where
  \<comment> \<open>the body shared by \<^verbatim>\<open>N_PSYM\<close>, \<^verbatim>\<open>N_RSYM\<close> and \<^verbatim>\<open>N_LSYM\<close>:
      \<^verbatim>\<open>stab_strcpy; DEBUG_AddLocal; DEBUG_SetLocalSymbolType(curr_loc, DEBUG_ParseStabType(ptr))\<close>\<close>
  "add_local text f regno offset ls =
     (case stab_strcpy 4096 text of Inl e \<Rightarrow> Inl e
      | Inr symname \<Rightarrow>
     (case DEBUG_ParseStabType text (glob ls) of Inl e \<Rightarrow> Inl e
      | Inr (tp, g) \<Rightarrow>
          Inr (ls\<lparr>events := events ls @
                     [AddLocal f regno offset symname, SetLocalSymbolType (length (events ls)) tp],
                  glob := g\<rparr>)))"

definition add_data_symbol :: "string \<Rightarrow> 32 word \<Rightarrow> bool \<Rightarrow> parse_locals \<Rightarrow> fault + parse_locals" where
  \<comment> \<open>the body shared by \<^verbatim>\<open>N_GSYM\<close>, \<^verbatim>\<open>N_LCSYM\<close> and \<^verbatim>\<open>N_STSYM\<close>\<close>
  "add_data_symbol text off invalid ls =
     (case DEBUG_ParseStabType text (glob ls) of Inl e \<Rightarrow> Inl e
      | Inr (tp, g) \<Rightarrow>
     (case stab_strcpy 4096 text of Inl e \<Rightarrow> Inl e
      | Inr symname \<Rightarrow>
          Inr (snd (DEBUG_AddSymbol symname off tp (currpath ls) False invalid (ls\<lparr>glob := g\<rparr>)))))"

definition case_N_FUN :: "string \<Rightarrow> 32 word \<Rightarrow> parse_locals \<Rightarrow> fault + parse_locals" where
  "case_N_FUN text off ls0 =
     (let ls = DEBUG_Normalize (curr_func ls0) ls0 in
      if \<not> in_external_file ls then
        (case stab_strcpy 4096 text of Inl e \<Rightarrow> Inl e
         | Inr symname \<Rightarrow>
             if symname \<noteq> [] then
               (case DEBUG_ParseStabType text (glob ls) of Inl e \<Rightarrow> Inl e
                | Inr (tp, g) \<Rightarrow>
                    (let (f, ls1) = DEBUG_AddSymbol symname off tp (currpath ls) True True (ls\<lparr>glob := g\<rparr>)
                     in Inr (ls1\<lparr>curr_func := f\<rparr>)))
             else Inr (ls\<lparr>curr_func := None\<rparr>))
      else Inr (ls\<lparr>curr_func := None\<rparr>))"

definition case_N_SO :: "strptr \<Rightarrow> string \<Rightarrow> int \<Rightarrow> parse_locals \<Rightarrow> fault + parse_locals" where
  "case_N_SO ptr text i ls =
     (if text = [] then
        Inr ((DEBUG_Normalize (curr_func ls) (ls\<lparr>currpath := []\<rparr>))\<lparr>curr_func := None, last_nso := i\<rparr>)
      else
        (let path = (if deref text \<noteq> CHR ''/'' then currpath ls @ text else text)
         in if \<not> length path < PATH_MAX then Inl BufferOverflow
            else Inr (ls\<lparr>currpath := path, subpath := Some ptr,
                         glob := DEBUG_ResetIncludes (glob ls), last_nso := i\<rparr>)))"

definition case_N_SOL :: "char list \<Rightarrow> string \<Rightarrow> parse_locals \<Rightarrow> fault + parse_locals" where
  \<comment> \<open>\<^verbatim>\<open>in_external_file = !(subpath == NULL || strcmp(ptr, subpath) == 0);\<close>\<close>
  "case_N_SOL mem text ls =
     (case subpath ls of
        None \<Rightarrow> Inr (ls\<lparr>in_external_file := False\<rparr>)
      | Some sp \<Rightarrow>
          (case text_of mem ls sp of Inl e \<Rightarrow> Inl e
           | Inr main \<Rightarrow> Inr (ls\<lparr>in_external_file := (text \<noteq> main)\<rparr>)))"

definition push_include :: "int \<Rightarrow> parse_locals \<Rightarrow> fault + parse_locals" where
  \<comment> \<open>\<^verbatim>\<open>DEBUG_AddInclude(idx)\<close> on the state of the resolver\<close>
  "push_include idx ls =
     (case DEBUG_AddInclude idx (glob ls) of Inl e \<Rightarrow> Inl e
      | Inr (k, g) \<Rightarrow> Inr (ls\<lparr>glob := g\<rparr>))"

definition dispatch :: "char list \<Rightarrow> 32 word \<Rightarrow> int \<Rightarrow> stab_nlist \<Rightarrow> strptr \<Rightarrow> string \<Rightarrow> parse_locals \<Rightarrow> fault + parse_locals" where
  \<comment> \<open>the \<^verbatim>\<open>switch(stab_ptr->n_type)\<close>; \<open>text\<close> is the string at \<open>ptr\<close>\<close>
  "dispatch mem load_offset i stab_ptr ptr text ls =
     (let t = n_type stab_ptr; off = load_offset + n_value stab_ptr in
      if t = N_GSYM then add_data_symbol text off True ls
      else if t = N_RBRAC \<or> t = N_LBRAC then Inr ls
      else if t = N_LCSYM \<or> t = N_STSYM then add_data_symbol text off False ls
      else if t = N_PSYM \<or> t = N_LSYM then
        (case curr_func ls of
           Some f \<Rightarrow> if \<not> in_external_file ls then add_local text f 0 (n_value stab_ptr) ls else Inr ls
         | None \<Rightarrow> Inr ls)
      else if t = N_RSYM then
        (case curr_func ls of
           Some f \<Rightarrow> if \<not> in_external_file ls then add_local text f (n_value stab_ptr + 1) 0 ls else Inr ls
         | None \<Rightarrow> Inr ls)
      else if t = N_SLINE then
        (case curr_func ls of
           Some f \<Rightarrow>
             if \<not> in_external_file ls
             then Inr (ls\<lparr>events := events ls @ [AddLineNumber f (n_desc stab_ptr) (n_value stab_ptr)]\<rparr>)
             else Inr ls
         | None \<Rightarrow> Inr ls)
      else if t = N_FUN then case_N_FUN text off ls
      else if t = N_SO then case_N_SO ptr text i ls
      else if t = N_SOL then case_N_SOL mem text ls
      else if t = N_UNDF then
        Inr ((DEBUG_Normalize (curr_func ls)
               (ls\<lparr>strs := strs ls + strtabinc ls, strtabinc := sint (n_value stab_ptr)\<rparr>))
             \<lparr>curr_func := None\<rparr>)
      else if t = N_OPT then Inr ls
      else if t = N_BINCL then
        (let (idx, g) = DEBUG_CreateInclude text (n_value stab_ptr) (glob ls)
         in push_include idx (ls\<lparr>glob := g\<rparr>))
      else if t = N_EINCL then Inr ls
      else if t = N_EXCL then
        push_include (DEBUG_FindInclude text (n_value stab_ptr) (glob ls)) ls
      else if t = N_MAIN then Inr ls
      else Inr (ls\<lparr>glob := DEBUG_Printf (UnknownStabType t) (glob ls)\<rparr>))"

definition parse_typedef_in_buffer :: "char list \<Rightarrow> strptr \<Rightarrow> parse_locals \<Rightarrow> fault + (bool \<times> strptr \<times> parse_locals)" where
  \<comment> \<open>lines 836 to 853; the flag is false at the \<^verbatim>\<open>continue\<close> that skips the definition\<close>
  "parse_typedef_in_buffer mem ptr ls =
     (case text_of mem ls ptr of Inl e \<Rightarrow> Inl e
      | Inr text \<Rightarrow>
          if CHR ''='' \<notin> set text then Inr (True, ptr, ls)
          else if ptr \<noteq> StabBuff \<and> \<not> length text < stabbufflen ls then Inl BufferOverflow
          else
            (case stab_strcpy 4096 text of Inl e \<Rightarrow> Inl e
             | Inr symname \<Rightarrow>
            (case DEBUG_ParseTypedefStab text symname (glob ls) of Inl e \<Rightarrow> Inl e
             | Inr (ok, text', g) \<Rightarrow>
                 if \<not> ok then Inr (False, StabBuff, ls\<lparr>stabbuff := [], glob := g\<rparr>)
                 else Inr (True, StabBuff, ls\<lparr>stabbuff := text', glob := g\<rparr>))))"

definition stab_record :: "char list \<Rightarrow> 32 word \<Rightarrow> int \<Rightarrow> stab_nlist \<Rightarrow> parse_locals \<Rightarrow> fault + parse_locals" where
  \<comment> \<open>one round of the \<^verbatim>\<open>for\<close> loop over the stabs\<close>
  "stab_record mem load_offset i stab_ptr ls =
     (case join_stab mem stab_ptr ls of Inl e \<Rightarrow> Inl e
      | Inr (None, ls1) \<Rightarrow> Inr ls1
      | Inr (Some ptr, ls1) \<Rightarrow>
     (case parse_typedef_in_buffer mem ptr ls1 of Inl e \<Rightarrow> Inl e
      | Inr (ok, ptr2, ls2) \<Rightarrow>
          if \<not> ok then Inr ls2
          else
            (case text_of mem ls2 ptr2 of Inl e \<Rightarrow> Inl e
             | Inr text \<Rightarrow>
            (case dispatch mem load_offset i stab_ptr ptr2 text ls2 of Inl e \<Rightarrow> Inl e
             | Inr ls3 \<Rightarrow> Inr (ls3\<lparr>stabbuff := []\<rparr>)))))"

fun stab_loop :: "char list \<Rightarrow> 32 word \<Rightarrow> int \<Rightarrow> stab_nlist list \<Rightarrow> parse_locals \<Rightarrow> fault + parse_locals" where
  "stab_loop mem load_offset i [] ls = Inr ls"
| "stab_loop mem load_offset i (stab_ptr # rest) ls =
     (case stab_record mem load_offset i stab_ptr ls of Inl e \<Rightarrow> Inl e
      | Inr ls1 \<Rightarrow> stab_loop mem load_offset (i + 1) rest ls1)"

definition init_locals :: "int \<Rightarrow> stabs_state \<Rightarrow> parse_locals" where
  \<comment> \<open>the locals of DEBUG\_ParseStabs before the loop; \<^verbatim>\<open>strs = addr + strtaboff\<close>\<close>
  "init_locals strtaboff g =
     \<lparr>curr_func = None, currpath = [], in_external_file = False, last_nso = - 1,
      stabbuff = [], stabbufflen = 65536, strs = strtaboff, strtabinc = 0,
      subpath = None, events = [], glob = g\<rparr>"

definition DEBUG_FreeRegisteredTypedefs :: "stabs_state \<Rightarrow> stabs_state" where
  "DEBUG_FreeRegisteredTypedefs st = st\<lparr>ktd_head := (\<lambda>_. [])\<rparr>"

definition DEBUG_FreeIncludes :: "stabs_state \<Rightarrow> stabs_state" where
  "DEBUG_FreeIncludes st = (DEBUG_ResetIncludes st)\<lparr>include_defs := [], cu_vector := []\<rparr>"

definition DEBUG_ParseStabs :: "char list \<Rightarrow> 32 word \<Rightarrow> stab_nlist list \<Rightarrow> int \<Rightarrow> stabs_state \<Rightarrow> fault + parse_locals" where
  "DEBUG_ParseStabs mem load_offset stabs strtaboff g =
     (case stab_loop mem load_offset 0 stabs (init_locals strtaboff g) of Inl e \<Rightarrow> Inl e
      | Inr ls \<Rightarrow> Inr (ls\<lparr>glob := DEBUG_FreeIncludes (DEBUG_FreeRegisteredTypedefs (glob ls))\<rparr>))"

section \<open>Notions used to state the properties\<close>

definition cfg :: "stabs_state \<Rightarrow> nat \<times> (nat \<Rightarrow> int) \<times> nat" where
  \<comment> \<open>what the resolver reads to find the table of a type reference\<close>
  "cfg st = (cu_include_stk_idx st, cu_include_stack st, length (include_defs st))"

definition only_grown :: "stabs_state \<Rightarrow> stabs_state \<Rightarrow> bool" where
  \<comment> \<open>the second state differs from the first by zero-filled growth of the tables only\<close>
  "only_grown st st' =
     ((\<forall>s. slot_get st' s = slot_get st s) \<and> cfg st' = cfg st \<and> ktd_head st' = ktd_head st \<and>
      type_heap st' = type_heap st \<and> dbg_log st' = dbg_log st)"

definition slots_agree :: "stabs_state \<Rightarrow> stabs_state \<Rightarrow> bool" where
  \<comment> \<open>both states resolve every type reference to the same slot with the same content\<close>
  "slots_agree st0 st = (cfg st = cfg st0 \<and> (\<forall>s. slot_get st s = slot_get st0 s))"





definition example_state :: stabs_state where
  \<comment> \<open>the tables after \<^verbatim>\<open>int\<close> has been defined as type 5 of the compilation unit\<close>
  "example_state =
     init_state\<lparr>cu_vector := [None, None, None, None, None, Some 0],
                type_heap := [\<lparr>dt_type = DT_BASIC, dt_name = Some ''int'', pointsto = None,
                               arr_min = 0, arr_max = 0, arr_elt = None, struct_size = None,
                               elements = []\<rparr>]\<rparr>"







definition raw_text :: "char list \<Rightarrow> parse_locals \<Rightarrow> stab_nlist \<Rightarrow> string" where
  \<comment> \<open>the text of a raw record, \<^verbatim>\<open>strs + stab_ptr->n_un.n_strx\<close>\<close>
  "raw_text mem ls r = (case c_string mem (strs ls + int (n_strx r)) of Inr t \<Rightarrow> t | Inl e \<Rightarrow> [])"

definition continued :: "char list \<Rightarrow> parse_locals \<Rightarrow> stab_nlist \<Rightarrow> bool" where
  \<comment> \<open>the text of the record is in the file, is not empty and ends with a backslash\<close>
  "continued mem ls r =
     (case c_string mem (strs ls + int (n_strx r)) of
        Inr t \<Rightarrow> t \<noteq> [] \<and> last t = BACKSLASH
      | Inl e \<Rightarrow> False)"

section \<open>Evaluation of the model on concrete stabs\<close>

lemmas c_defs = NUL_def BACKSLASH_def deref_def advance_def is_digit_def digit_val_def is_space_def
  LONG_MAX_def LONG_MIN_def strtol_def strchr_def strrchr_def stab_strcpy_def Let_def

lemmas table_defs = DEBUG_Printf_def DEBUG_NewDataType_def DEBUG_GetType_def update_node_def
  DEBUG_SetPointerType_def DEBUG_SetArrayParams_def DEBUG_SetStructSize_def
  DEBUG_AddStructElement_def MAX_INCLUDES_def grow_def slot_get_def slot_set_def
  vector_of_def stale_def
  DEBUG_CreateInclude_def DEBUG_FindInclude_def DEBUG_AddInclude_def DEBUG_ResetIncludes_def
  DEBUG_FileSubNr2StabEnum_def DEBUG_ReadTypeEnum_def DEBUG_ReadTypeEnumBackwards_def
  init_state_def

lemmas typedef_defs = DEBUG_RegisterTypedef_def expect_of_def DEBUG_HandlePreviousTypedef_def
  new_skeleton_def pass1_case_def read_name_def parse_field_def struct_field_def struct_loop.simps
  enum_member_def enum_loop.simps set_curr_type_def case_xref_def case_pointer_def case_ref_def
  case_array_def case_struct_def case_enum_def pass2_case_def pass2.simps
  DEBUG_ParseTypedefStab_def DEBUG_ParseStabType_def stab_hash_def NR_STAB_HASH_def

lemmas stabs_defs = N_UNDF_def N_GSYM_def N_FUN_def N_STSYM_def N_LCSYM_def N_MAIN_def N_OPT_def
  N_RSYM_def N_SLINE_def N_SO_def N_LSYM_def N_BINCL_def N_SOL_def N_PSYM_def N_EINCL_def
  N_LBRAC_def N_EXCL_def N_RBRAC_def PATH_MAX_def c_string_def peek_def text_of_def
  last_char_index_def join_stab_def DEBUG_AddSymbol_def DEBUG_Normalize_def add_local_def
  add_data_symbol_def case_N_FUN_def case_N_SO_def case_N_SOL_def push_include_def dispatch_def
  parse_typedef_in_buffer_def stab_record_def init_locals_def

lemma replicate_numeral_Cons: "replicate (numeral k) x = x # replicate (pred_numeral k) x"
  by (simp add: numeral_eq_Suc)

section \<open>Slots and table growth\<close>






section \<open>Slots that hold a node\<close>

lemma slot_get_grow_cu:
  "slot_get (st\<lparr>cu_vector := grow (cu_vector st) n\<rparr>) s = slot_get st s"
  by (cases s) (auto simp: slot_get_def grow_def nth_append)

lemma slot_get_grow_inc:
  assumes "i < length (include_defs st)"
  shows "slot_get (st\<lparr>include_defs := (include_defs st)
            [i := (include_defs st ! i)\<lparr>inc_vector := grow (inc_vector (include_defs st ! i)) n\<rparr>]\<rparr>) s
         = slot_get st s"
proof (cases s)
  case (CuSlot m)
  then show ?thesis by (simp add: slot_get_def)
next
  case (IncSlot j m)
  show ?thesis
  proof (cases "j = i")
    case True
    with assms IncSlot show ?thesis
      by (auto simp: slot_get_def grow_def nth_append)
  next
    case False
    with IncSlot show ?thesis by (simp add: slot_get_def)
  qed
qed

lemma FileSubNr_only_grown:
  assumes "DEBUG_FileSubNr2StabEnum f n st = Inr (d, st')"
  shows "only_grown st st'"
proof (cases "f = 0")
  case True
  with assms show ?thesis
    by (auto simp: DEBUG_FileSubNr2StabEnum_def only_grown_def cfg_def slot_get_grow_cu
             split: if_splits)
next
  case False
  with assms have i: "nat (cu_include_stack st (nat f)) < length (include_defs st)"
    and st': "st' = st\<lparr>include_defs := (include_defs st)
                 [nat (cu_include_stack st (nat f)) := (include_defs st ! nat (cu_include_stack st (nat f)))
                    \<lparr>inc_vector := grow (inc_vector (include_defs st ! nat (cu_include_stack st (nat f)))) (nat n)\<rparr>]\<rparr>"
    by (auto simp: DEBUG_FileSubNr2StabEnum_def Let_def split: if_splits)
  show ?thesis
    unfolding only_grown_def st'
    using slot_get_grow_inc [OF i] by (simp add: cfg_def)
qed

lemma ReadTypeEnum_only_grown:
  assumes "DEBUG_ReadTypeEnum x st = Inr (d, x', st')"
  shows "only_grown st st'"
  using assms
  by (auto simp: DEBUG_ReadTypeEnum_def split: if_splits prod.splits sum.splits
           dest: FileSubNr_only_grown)


lemma slot_get_slot_set_other: "s \<noteq> dt \<Longrightarrow> slot_get (slot_set dt v st) s = slot_get st s"
proof (cases dt)
  case (CuSlot n)
  assume "s \<noteq> dt"
  with CuSlot show ?thesis by (cases s) (auto simp: slot_get_def slot_set_def)
next
  case (IncSlot i n)
  assume "s \<noteq> dt"
  with IncSlot show ?thesis
    by (cases s; cases "i < length (include_defs st)")
       (auto simp: slot_get_def slot_set_def nth_list_update)
qed

lemma slot_get_NewDataType: "slot_get (snd (DEBUG_NewDataType k n st)) s = slot_get st s"
  by (cases s) (simp_all add: DEBUG_NewDataType_def slot_get_def)

lemma slot_get_Printf: "slot_get (DEBUG_Printf m st) s = slot_get st s"
  by (cases s) (simp_all add: DEBUG_Printf_def slot_get_def)

text \<open>
  C3 (write-once slots). The claim says that no operation overwrites a slot that holds a
  node. Three runs within one compilation unit show otherwise. First sweep: after
  \<^verbatim>\<open>"a:t5=*1"\<close> slot (0,5) holds node 0, and \<^verbatim>\<open>"b:t5=*1"\<close> puts the new node 1 there.
  Rebinding: \<^verbatim>\<open>"A:t5=*6=*1"\<close> is registered with the nodes 0 and 1, \<^verbatim>\<open>"b:t5=*1"\<close> binds slot
  (0,5) to node 2, and the second occurrence of \<^verbatim>\<open>"A:t5=*6=*1"\<close> rebinds it to node 0.
  Struct failure: for \<^verbatim>\<open>"foo:t5=s8x:1,0,32;;"\<close> with type 1 undefined the first sweep fills
  slot (0,5) and the second sweep sets it back to empty.
\<close>

theorem filled_slots_are_overwritten:
  "(case DEBUG_ParseTypedefStab ''a:t5=*1'' ''a'' init_state of
      Inr (b1, t1, st1) \<Rightarrow>
        slot_get st1 (CuSlot 5) = Some 0 \<and>
        (case DEBUG_ParseTypedefStab ''b:t5=*1'' ''b'' st1 of
           Inr (b2, t2, st2) \<Rightarrow> slot_get st2 (CuSlot 5) = Some 1
         | Inl e \<Rightarrow> False)
    | Inl e \<Rightarrow> False) \<and>
   (case DEBUG_ParseTypedefStab ''A:t5=*6=*1'' ''A'' init_state of
      Inr (b1, t1, st1) \<Rightarrow>
        (case DEBUG_ParseTypedefStab ''b:t5=*1'' ''b'' st1 of
           Inr (b2, t2, st2) \<Rightarrow>
             slot_get st2 (CuSlot 5) = Some 2 \<and>
             (case DEBUG_HandlePreviousTypedef ''A'' ''A:t5=*6=*1'' st2 of
                Inr (seen, st3) \<Rightarrow> seen \<and> slot_get st3 (CuSlot 5) = Some 0
              | Inl e \<Rightarrow> False)
         | Inl e \<Rightarrow> False)
    | Inl e \<Rightarrow> False) \<and>
   (case pass1 [] ''foo:t5=s8x:1,0,32;;'' (Some ''foo'') [] init_state of
      Inr (ok1, typename, curr_types, st1) \<Rightarrow>
        slot_get st1 (CuSlot 5) = Some 0 \<and>
        (case pass2 ''foo:t5=s8x:1,0,32;;'' 0 curr_types typename st1 of
           Inr (ok2, t2, curr_types2, st2) \<Rightarrow> ok2 \<and> slot_get st2 (CuSlot 5) = None
         | Inl e \<Rightarrow> False)
    | Inl e \<Rightarrow> False)"
  by (simp add: c_defs table_defs typedef_defs replicate_numeral_Cons)

text \<open>
  C3 as amended: the cross-reference case of the second sweep (tag \<^verbatim>\<open>'('\<close>), with the
  growth of the tables it causes, leaves every slot that holds a node as it is; it
  writes only to empty slots.
\<close>

theorem xref_fills_only_empty_slots:
  assumes "case_ref post dt typename st = Inr (tc, st')"
    and "slot_get st s = Some h"
  shows "slot_get st' s = Some h"
proof -
  from assms(1) obtain dt2 st1 where
    r: "DEBUG_ReadTypeEnum post st = Inr (dt2, tc, st1)"
    by (auto simp: case_ref_def split: sum.splits if_splits prod.splits)
  have g: "slot_get st1 s = Some h"
    using ReadTypeEnum_only_grown [OF r] assms(2) by (simp add: only_grown_def)
  show ?thesis
  proof (cases "slot_get st1 dt = None")
    case False
    with assms(1) r have "st' = DEBUG_Printf (UnknownCondition (slot_get st1 dt) (slot_get st1 dt2)) st1"
      by (auto simp: case_ref_def split: if_splits)
    then show ?thesis using g by (simp add: slot_get_Printf)
  next
    case True
    with g have ne: "s \<noteq> dt" by auto
    show ?thesis
    proof (cases "slot_get st1 dt2 = None")
      case False
      with True assms(1) r have "st' = slot_set dt (slot_get st1 dt2) st1"
        by (auto simp: case_ref_def split: if_splits)
      then show ?thesis using g ne by (simp add: slot_get_slot_set_other)
    next
      case d2: True
      with g have ne2: "s \<noteq> dt2" by auto
      obtain hn st2 where n: "DEBUG_NewDataType DT_BASIC typename st1 = (hn, st2)"
        by (cases "DEBUG_NewDataType DT_BASIC typename st1")
      with True d2 assms(1) r have "st' = slot_set dt2 (Some hn) (slot_set dt (Some hn) st2)"
        by (auto simp: case_ref_def split: if_splits)
      moreover have "slot_get st2 s = Some h"
        using slot_get_NewDataType [of DT_BASIC typename st1 s] n g by simp
      ultimately show ?thesis using ne ne2 by (simp add: slot_get_slot_set_other)
    qed
  qed
qed

theorem xref_fills_only_empty_slots_witness:
  "slot_get example_state (CuSlot 5) = Some 0 \<and>
   (\<exists>tc st'. case_ref ''(0,5)'' (CuSlot 3) None example_state = Inr (tc, st') \<and>
      slot_get st' (CuSlot 5) = Some 0 \<and> slot_get st' (CuSlot 3) = Some 0)"
proof -
  have a: "slot_get example_state (CuSlot 5) = Some 0"
    by (simp add: example_state_def slot_get_def)
  obtain tc st' where r: "case_ref ''(0,5)'' (CuSlot 3) None example_state = Inr (tc, st')"
    by (simp add: c_defs table_defs case_ref_def example_state_def)
  have b: "slot_get st' (CuSlot 5) = Some 0"
    using r a by (rule xref_fills_only_empty_slots)
  have c: "slot_get st' (CuSlot 3) = Some 0"
    using r by (auto simp: c_defs table_defs case_ref_def example_state_def)
  show ?thesis
    using a r b c by (intro conjI exI [of _ tc] exI [of _ st'])
qed

section \<open>Fields of structures\<close>











lemma slots_agree_refl: "slots_agree st st"
  by (simp add: slots_agree_def)

lemma field_beyond_table_is_stale:
  "DEBUG_ParseTypedefStab ''foo:t5=s8x:100,0,32;;'' ''foo'' init_state = Inl StalePointer"
  by (simp add: c_defs table_defs typedef_defs replicate_numeral_Cons)




section \<open>What a parse keeps\<close>





























































section \<open>The registry after a parse\<close>








section \<open>Array definitions\<close>





section \<open>Structures that are already sized\<close>

text \<open>
  C5 (a re-visited struct is a no-op). The claim says the parser skips exactly to past
  the terminating \<^verbatim>\<open>;;\<close>. The loop \<^verbatim>\<open>while( tc[0] != ';' && tc[1] != ';' ) tc++\<close> stops
  one character before the first \<^verbatim>\<open>';'\<close>, the end of the first field. When the node of
  slot (0,5) is already sized and the sub-definition \<^verbatim>\<open>5=s8x:1,0,32;y:1,32,32;;\<close> is met
  again, the text \<^verbatim>\<open>:1,32,32;;\<close> of the second field is moved to the place of the \<^verbatim>\<open>'='\<close>.
  The second part runs DEBUG\_ParseTypedefStab on a text that defines type 5 twice.
\<close>

theorem sized_struct_skip_stops_at_first_field:
  "(case skip_sized ''x:1,0,32;y:1,32,32;;'' of Inr tc \<Rightarrow> tc = ''2;y:1,32,32;;'' | Inl e \<Rightarrow> False) \<and>
   (case DEBUG_ParseTypedefStab ''int:t1=r1;-2147483648;2147483647;'' ''int'' init_state of
      Inr (b1, t1, st1) \<Rightarrow>
        (case DEBUG_ParseTypedefStab ''foo:t5=s8x:1,0,32;y:1,32,32;;'' ''foo'' st1 of
           Inr (b2, t2, st2) \<Rightarrow>
             t2 = ''foo:t5'' \<and>
             struct_size (type_heap st2 ! 1) = Some 8 \<and>
             (case case_struct ''s8x:1,0,32;y:1,32,32;;'' (CuSlot 5) (slot_get st2 (CuSlot 5)) st2 of
                Inr (tc, st3) \<Rightarrow> tc = '':1,32,32;;'' \<and> type_heap st3 = type_heap st2
              | Inl e \<Rightarrow> False)
         | Inl e \<Rightarrow> False) \<and>
        (case DEBUG_ParseTypedefStab ''foo:t5=s8x:1,0,32;y:1,32,32;;5=s8x:1,0,32;y:1,32,32;;''
                ''foo'' st1 of
           Inr (b2, t2, st2) \<Rightarrow> b2 \<and> t2 = ''foo:t5:1,32,32;;5''
         | Inl e \<Rightarrow> False)
    | Inl e \<Rightarrow> False)"
  by (simp add: c_defs table_defs typedef_defs)

section \<open>The record dispatcher\<close>

text \<open>
  The joiner on texts that are not empty: a record whose text ends with a backslash is
  appended to the buffer without the backslash and nothing is dispatched for it; a run
  of such records leaves the concatenation in the buffer; the record that ends the run
  is dispatched with the content of the buffer followed by its own text; and the buffer
  is empty again once a record has been dispatched.
\<close>

lemma c_string_last:
  assumes "c_string mem a = Inr text" and "text \<noteq> []"
  shows "peek mem (last_char_index a text) = Inr (last text)"
proof -
  from assms(1) have a: "0 \<le> a" "a < int (length mem)"
    and t: "text = takeWhile (\<lambda>c. c \<noteq> NUL) (drop (nat a) mem)"
    by (auto simp: c_string_def split: if_splits)
  let ?d = "drop (nat a) mem"
  have l: "length text \<le> length ?d" unfolding t by (rule length_takeWhile_le)
  have n: "length text - 1 < length text" using assms(2) by simp
  have "last text = text ! (length text - 1)" using assms(2) by (rule last_conv_nth)
  also have "\<dots> = ?d ! (length text - 1)"
    using n t by (metis takeWhile_nth)
  also have "\<dots> = mem ! (nat a + (length text - 1))"
    using l n by (simp add: nth_drop)
  finally have e: "last text = mem ! (nat a + (length text - 1))" .
  have i: "nat (last_char_index a text) = nat a + (length text - 1)"
    using a assms(2) by (cases "text") (auto simp: last_char_index_def nat_add_distrib)
  obtain k where k: "length text = Suc k" using assms(2) by (cases "text") auto
  have b: "0 \<le> last_char_index a text" "last_char_index a text < int (length mem)"
    using a l k by (auto simp: last_char_index_def)
  show ?thesis using e i b by (simp add: peek_def)
qed

lemma join_stab_continued:
  assumes "c_string mem (strs ls + int (n_strx r)) = Inr text"
    and "text \<noteq> []" and "last text = BACKSLASH"
    and "length (stabbuff ls) + length text \<le> stabbufflen ls"
  shows "join_stab mem r ls = Inr (None, ls\<lparr>stabbuff := stabbuff ls @ butlast text\<rparr>)"
proof -
  have p: "peek mem (last_char_index (strs ls + int (n_strx r)) text) = Inr BACKSLASH"
    using c_string_last [OF assms(1,2)] assms(3) by simp
  obtain k where l: "length text = Suc k" using assms(2) by (cases "text") auto
  show ?thesis
    using assms(1,4) p l by (simp add: join_stab_def Let_def butlast_conv_take)
qed

lemma join_stab_complete:
  assumes "c_string mem (strs ls + int (n_strx r)) = Inr text"
    and "text \<noteq> []" and "last text \<noteq> BACKSLASH"
    and "length (stabbuff ls) + length text < stabbufflen ls"
  shows "\<exists>p ls'. join_stab mem r ls = Inr (Some p, ls') \<and>
           text_of mem ls' p = Inr (stabbuff ls @ text) \<and>
           ls' = (if stabbuff ls = [] then ls else ls\<lparr>stabbuff := stabbuff ls @ text\<rparr>)"
proof -
  have p: "peek mem (last_char_index (strs ls + int (n_strx r)) text) = Inr (last text)"
    using c_string_last [OF assms(1,2)] .
  show ?thesis
    using assms p by (simp add: join_stab_def Let_def text_of_def)
qed

lemma stab_record_clears_buffer:
  assumes "join_stab mem r ls = Inr (Some p, ls1)"
    and "stab_record mem load_offset i r ls = Inr ls'"
  shows "stabbuff ls' = []"
  using assms
  by (auto simp: stab_record_def parse_typedef_in_buffer_def
           split: sum.splits if_splits option.splits)

lemma stab_loop_continued_run:
  assumes "\<forall>r \<in> set rs. continued mem ls r"
    and "length (stabbuff ls) + sum_list (map (\<lambda>r. length (raw_text mem ls r)) rs) \<le> stabbufflen ls"
  shows "stab_loop mem load_offset i (rs @ rest) ls =
         stab_loop mem load_offset (i + int (length rs)) rest
           (ls\<lparr>stabbuff := stabbuff ls @ concat (map (\<lambda>r. butlast (raw_text mem ls r)) rs)\<rparr>)"
  using assms
proof (induction rs arbitrary: ls i)
  case Nil
  show ?case by simp
next
  case (Cons r rs)
  from Cons.prems(1) obtain tx where
    c: "c_string mem (strs ls + int (n_strx r)) = Inr tx" and
    t: "tx \<noteq> []" "last tx = BACKSLASH"
    by (auto simp: continued_def split: sum.splits)
  have rt: "raw_text mem ls r = tx" using c by (simp add: raw_text_def)
  have cap: "length (stabbuff ls) + length tx \<le> stabbufflen ls"
    using Cons.prems(2) rt by simp
  let ?ls1 = "ls\<lparr>stabbuff := stabbuff ls @ butlast tx\<rparr>"
  have sr: "stab_record mem load_offset i r ls = Inr ?ls1"
    using join_stab_continued [OF c t cap] by (simp add: stab_record_def)
  have same: "\<And>x. continued mem ?ls1 x = continued mem ls x"
    "\<And>x. raw_text mem ?ls1 x = raw_text mem ls x"
    by (simp_all add: continued_def raw_text_def)
  have p1: "\<forall>x \<in> set rs. continued mem ?ls1 x"
    using Cons.prems(1) same by simp
  have p2: "length (stabbuff ?ls1) + sum_list (map (\<lambda>x. length (raw_text mem ?ls1 x)) rs)
      \<le> stabbufflen ?ls1"
    using Cons.prems(2) rt t same by simp
  have "stab_loop mem load_offset i ((r # rs) @ rest) ls =
        stab_loop mem load_offset (i + 1) (rs @ rest) ?ls1"
    using sr by simp
  also note Cons.IH [OF p1 p2, of "i + 1"]
  also have "i + 1 + int (length rs) = i + int (length (r # rs))" by simp
  also have "?ls1\<lparr>stabbuff := stabbuff ?ls1 @ concat (map (\<lambda>x. butlast (raw_text mem ?ls1 x)) rs)\<rparr> =
        ls\<lparr>stabbuff := stabbuff ls @ concat (map (\<lambda>x. butlast (raw_text mem ls x)) (r # rs))\<rparr>"
    using rt same by simp
  finally show ?case .
qed

text \<open>
  C9 (include re-export pushes a valid index). The claim asks that the index pushed for
  an \<^verbatim>\<open>N_EXCL\<close> record is always one of an existing include definition. The code pushes
  whatever \<^verbatim>\<open>DEBUG_FindInclude\<close> returns. For a stream whose first record is
  \<^verbatim>\<open>N_EXCL "header.h"\<close> with value 1, no definition exists: the stack then holds \<open>-1\<close> at
  depth 1, and resolving the type reference \<^verbatim>\<open>(1,3)\<close> indexes \<^verbatim>\<open>include_defs[-1]\<close>.
\<close>

theorem excl_pushes_not_found:
  "(case stab_loop (''header.h'' @ [NUL]) 0 0
           [\<lparr>n_strx = 0, n_type = N_EXCL, n_desc = 0, n_value = 1\<rparr>]
           (init_locals 0 init_state) of
      Inr ls \<Rightarrow>
        include_defs (glob ls) = [] \<and>
        cu_include_stk_idx (glob ls) = 1 \<and>
        cu_include_stack (glob ls) 1 = - 1 \<and>
        (case DEBUG_FileSubNr2StabEnum 1 3 (glob ls) of Inl e \<Rightarrow> e = BadIndex | Inr r \<Rightarrow> False)
    | Inl e \<Rightarrow> False)"
  by (simp add: c_defs table_defs stabs_defs)

text \<open>
  C10 (the joiner is safe on empty text). The continuation test reads
  \<^verbatim>\<open>ptr[strlen(ptr) - 1]\<close>. For an empty text at offset 1 that is offset 0, the byte
  before the text: when that byte is a backslash the empty record is taken for a
  continued one, and when the text starts the file the read is outside it.
\<close>

theorem joiner_reads_before_empty_text:
  "c_string [BACKSLASH, NUL] 1 = Inr [] \<and>
   last_char_index 1 [] = 0 \<and>
   (case join_stab [BACKSLASH, NUL] \<lparr>n_strx = 1, n_type = N_SO, n_desc = 0, n_value = 0\<rparr>
           (init_locals 0 init_state) of
      Inr (p, ls) \<Rightarrow> p = None
    | Inl e \<Rightarrow> False) \<and>
   (case join_stab [NUL] \<lparr>n_strx = 0, n_type = N_SO, n_desc = 0, n_value = 0\<rparr>
           (init_locals 0 init_state) of
      Inl e \<Rightarrow> e = OutOfBounds
    | Inr r \<Rightarrow> False)"
  by (simp add: c_defs table_defs stabs_defs)

text \<open>
  C7 (continuation joining). The claim covers every run of records, also the run of one
  record whose text is empty. The string table below starts at offset 1 of the file with
  the empty string, and the byte before it is a backslash. The first record, the empty
  \<^verbatim>\<open>N_SO\<close> that closes a compilation unit, is one complete logical record; the code takes
  it for a continued stab and dispatches only the second record. With another byte
  before the table both records are dispatched.
\<close>

theorem joiner_swallows_empty_record:
  "(case stab_loop ([BACKSLASH, NUL] @ ''main:F1'' @ [NUL]) 0 0
           [\<lparr>n_strx = 0, n_type = N_SO, n_desc = 0, n_value = 0\<rparr>,
            \<lparr>n_strx = 1, n_type = N_FUN, n_desc = 0, n_value = 0\<rparr>]
           (init_locals 1 init_state) of
      Inr ls \<Rightarrow> events ls = [Normalize None, AddSymbol ''main'' 0 None [] True True]
    | Inl e \<Rightarrow> False) \<and>
   (case stab_loop ([CHR ''a'', NUL] @ ''main:F1'' @ [NUL]) 0 0
           [\<lparr>n_strx = 0, n_type = N_SO, n_desc = 0, n_value = 0\<rparr>,
            \<lparr>n_strx = 1, n_type = N_FUN, n_desc = 0, n_value = 0\<rparr>]
           (init_locals 1 init_state) of
      Inr ls \<Rightarrow> events ls = [Normalize None, Normalize None, AddSymbol ''main'' 0 None [] True True]
    | Inl e \<Rightarrow> False)"
  by (simp add: c_defs table_defs typedef_defs stabs_defs)




end
